theory Spec2Isabelle
  imports Complex_Main "HOL-Library.Multiset"
begin

section \<open>Incoherent intermediate scattering (nscsim/quasielastic/incoherent.py)\<close>

text \<open>
  The arrays of the source are numpy arrays of floats. They are modelled over exact
  arithmetic: a float is a \<open>real\<close>, a complex float a \<open>complex\<close>. An array of shape
  (n, 3) is a list of triples, an array of shape (m, n) a list of m rows. The trajectory
  \<open>tr\<close> of shape (#atoms, #frames, 3) is a list of atoms, each a list of positions; that
  all atoms have the same number of frames, which the array type guarantees, is a
  hypothesis of the theorems that need it.

  Where a claim depends on the rounding of binary64 itself, \<open>serial_worker\<close> is modelled
  a second time with every operation rounded (\<open>b64_serial_worker\<close>, the last subsection
  of the definitions).

  Exceptions are values of \<open>error\<close>. The one place where the source can produce a
  non-finite number from finite input is the final division by the sum of squared
  weights; numpy does not raise there, so the result of a division is an \<open>npval\<close>.
\<close>

type_synonym vec3 = "real \<times> real \<times> real"

datatype error = IndexError | ValueError | TypeError

datatype 'a npval = Finite 'a | NanInf

subsection \<open>numpy primitives used by the source\<close>

text \<open>Contraction of the coordinate axis in \<open>np.tensordot(q, atomic_tr, axes=(1, 1))\<close>.\<close>

fun dot3 :: "vec3 \<Rightarrow> vec3 \<Rightarrow> real" where
  "dot3 (a, b, c) (x, y, z) = a * x + b * y + c * z"

definition tensordot :: "vec3 list \<Rightarrow> vec3 list \<Rightarrow> real list list" where
  "tensordot q atomic_tr = map (\<lambda>qv. map (\<lambda>r. dot3 qv r) atomic_tr) q"

text \<open>\<open>np.arange(a, b)\<close> on integers.\<close>

definition np_arange :: "nat \<Rightarrow> nat \<Rightarrow> nat list" where
  "np_arange a b = [a..<b]"

text \<open>
  \<open>np.correlate(a, v, "full")\<close>: entry j of the result is
  \<open>c_k = \<Sum>n. a[n + k] * conj(v[n])\<close> at lag \<open>k = j - (len v - 1)\<close>, the arrays being
  zero outside their range. An empty argument raises ValueError.
\<close>

definition np_correlate_full :: "complex list \<Rightarrow> complex list \<Rightarrow> error + complex list" where
  "np_correlate_full a v =
     (if a = [] \<or> v = [] then Inl ValueError
      else Inr (map (\<lambda>j. sum_list (map (\<lambda>n.
                  if length v - 1 \<le> n + j \<and> n + j - (length v - 1) < length a
                  then a ! (n + j - (length v - 1)) * cnj (v ! n) else 0) [0..<length v]))
                [0..<length a + length v - 1]))"

text \<open>Results of calls collected in order; the first exception ends the collection.\<close>

fun collect :: "(error + 'a) list \<Rightarrow> error + 'a list" where
  "collect [] = Inr []"
| "collect (x # xs) =
     (case x of Inl e \<Rightarrow> Inl e
      | Inr y \<Rightarrow> (case collect xs of Inl e \<Rightarrow> Inl e | Inr ys \<Rightarrow> Inr (y # ys)))"

text \<open>
  \<open>np.apply_along_axis(f, 1, arr)\<close> on a 2-d array: \<open>f\<close> on every row. With no row
  it raises ValueError.
\<close>

definition apply_along_axis ::
  "(complex list \<Rightarrow> error + complex list) \<Rightarrow> complex list list \<Rightarrow> error + complex list list" where
  "apply_along_axis f arr = (if arr = [] then Inl ValueError else collect (map f arr))"

text \<open>\<open>np.add\<close> on two arrays of the same 2-d shape.\<close>

definition np_add :: "complex list list \<Rightarrow> complex list list \<Rightarrow> complex list list" where
  "np_add x y = map2 (map2 (+)) x y"

text \<open>\<open>functools.reduce(f, xs)\<close> without initial value: TypeError on an empty sequence.\<close>

fun reduce :: "('a \<Rightarrow> 'a \<Rightarrow> 'a) \<Rightarrow> 'a list \<Rightarrow> error + 'a" where
  "reduce f [] = Inl TypeError"
| "reduce f (x # xs) = Inr (foldl f x xs)"

text \<open>
  Division of a complex float by a real float: on a zero divisor numpy warns and yields
  NaN or Inf components; it does not raise.
\<close>

fun np_true_divide :: "complex npval \<Rightarrow> real \<Rightarrow> complex npval" where
  "np_true_divide (Finite z) d = (if d = 0 then NanInf else Finite (z / complex_of_real d))"
| "np_true_divide NanInf d = NanInf"

fun npval_add :: "complex npval \<Rightarrow> complex npval \<Rightarrow> complex npval" where
  "npval_add (Finite a) (Finite b) = Finite (a + b)"
| "npval_add _ _ = NanInf"

fun np_real :: "complex npval \<Rightarrow> real npval" where
  "np_real (Finite z) = Finite (Re z)"
| "np_real NanInf = NanInf"

subsection \<open>serial\_worker: intensities of one atom\<close>

text \<open>
  Lines 56-57: \<open>w = np.arange(1, 1 + n); w = 1.0 / np.concatenate((w, w[::-1][1:]))\<close>,
  with \<open>n = len(ai[0])\<close> the number of frames.
\<close>

definition lag_weights :: "nat \<Rightarrow> real list" where
  "lag_weights n =
     (let w = np_arange 1 (1 + n)
      in map (\<lambda>m. 1 / real m) (w @ drop 1 (rev w)))"

text \<open>
  \<open>q\<close> is the free variable of the nested function, the wavevectors of the enclosing
  call. \<open>ai[0]\<close> raises IndexError when there is no wavevector.
\<close>

definition serial_worker :: "vec3 list \<Rightarrow> vec3 list \<Rightarrow> real \<Rightarrow> error + complex list list" where
  "serial_worker q atomic_tr atomic_s_inc =
     (let ai = map (map (\<lambda>x. exp (- \<i> * complex_of_real x))) (tensordot q atomic_tr)
      in if ai = [] then Inl IndexError
         else
           let w = lag_weights (length (ai ! 0))
           in case apply_along_axis
                     (\<lambda>x. case np_correlate_full x x of
                             Inl e \<Rightarrow> Inl e
                           | Inr c \<Rightarrow> Inr (map2 (\<lambda>u z. complex_of_real (u * atomic_s_inc\<^sup>2) * z) w c))
                     ai of
                Inl e \<Rightarrow> Inl e
              | Inr result \<Rightarrow> Inr (map (drop (length (result ! 0) div 2)) result))"

subsection \<open>intermediate\_vector\_set: sum over atoms and normalisation\<close>

text \<open>
  \<open>pool.uimap(serial_worker, tr, s_inc)\<close> pairs atoms and weights as \<open>zip\<close> does, up to
  the shorter of the two, and yields the results in the order of completion. The model
  takes them in the order of the atoms; \<open>reduce_np_add_mset\<close> below shows that the order
  does not change the sum. The pool itself (creation, restart, close, join) and the
  logging are not modelled.
\<close>

definition intermediate_vector_set ::
  "vec3 list list \<Rightarrow> vec3 list \<Rightarrow> real list \<Rightarrow> error + complex npval list list" where
  "intermediate_vector_set tr q s_inc =
     (case collect (map (\<lambda>(atomic_tr, atomic_s_inc). serial_worker q atomic_tr atomic_s_inc)
                        (zip tr s_inc)) of
        Inl e \<Rightarrow> Inl e
      | Inr rs \<Rightarrow>
          (case reduce np_add rs of
             Inl e \<Rightarrow> Inl e
           | Inr result \<Rightarrow>
               Inr (map (map (\<lambda>z. np_true_divide (Finite z) (sum_list (map (\<lambda>s. s * s) s_inc))))
                        result)))"

subsection \<open>intermediate: average over the wavevectors\<close>

text \<open>
  \<open>np.average(sf, axis=0)\<close> without weights is the mean over the rows: the sum of each
  column divided by the number of rows. A non-finite entry makes its column's mean
  non-finite.
\<close>

definition np_average_axis0 :: "complex npval list list \<Rightarrow> complex npval list" where
  "np_average_axis0 sf =
     (case sf of [] \<Rightarrow> []
      | row # rows \<Rightarrow>
          map (\<lambda>k. np_true_divide (foldl npval_add (row ! k) (map (\<lambda>r. r ! k) rows))
                                   (real (length sf)))
              [0..<length row])"

text \<open>
  The averaging triple (function, positional arguments, keyword arguments) is the
  function with its arguments applied; the default is \<open>np_average_axis0\<close>.
\<close>

definition intermediate ::
  "vec3 list list \<Rightarrow> vec3 list \<Rightarrow> real list \<Rightarrow> (complex npval list list \<Rightarrow> 'a) \<Rightarrow> error + 'a" where
  "intermediate tr q s_inc averaging =
     (case intermediate_vector_set tr q s_inc of
        Inl e \<Rightarrow> Inl e
      | Inr sf \<Rightarrow> Inr (averaging sf))"

subsection \<open>intermediate\_spherical: one averaged series per modulus\<close>

text \<open>
  Modelled from the spec: \<open>qvec.sphere_average\<close> is not among the sources. The spec
  describes the wavevector sampling as a pure function from a magnitude to a set of
  wavevectors, applied to each requested magnitude in input order; \<open>sample\<close> is that
  function, a parameter.
\<close>

definition sphere_average :: "(real \<Rightarrow> vec3 list) \<Rightarrow> real list \<Rightarrow> vec3 list list" where
  "sphere_average sample q_mod = map sample q_mod"

definition intermediate_spherical ::
  "(real \<Rightarrow> vec3 list) \<Rightarrow> vec3 list list \<Rightarrow> real list \<Rightarrow> real list \<Rightarrow> error + real npval list list" where
  "intermediate_spherical sample tr q_mod s_inc =
     (let q_sets = sphere_average sample q_mod
      in collect (map (\<lambda>q_set. case intermediate tr q_set s_inc np_average_axis0 of
                                  Inl e \<Rightarrow> Inl e
                                | Inr av \<Rightarrow> Inr (map np_real av))
                      q_sets))"

subsection \<open>The per-atom computation in the words of the specification\<close>

text \<open>
  The amplitude \<open>a(q, t) = exp(-i * (q . r(t)))\<close>; the full linear autocorrelation
  \<open>corr[k] = \<Sum>t. a[t] * conj(a[t - k])\<close> for the lags \<open>-(n - 1) .. n - 1\<close>, a
  term counting only where both frames exist; each lag multiplied by the reciprocal of
  its number of overlapping frame pairs, \<open>n - |k|\<close>, and by the squared weight; the half
  from the centre (lag 0) to the end kept.
\<close>

definition spec_amplitude :: "vec3 \<Rightarrow> vec3 \<Rightarrow> complex" where
  "spec_amplitude qv r = exp (- \<i> * complex_of_real (dot3 qv r))"

definition spec_autocorrelation :: "complex list \<Rightarrow> int \<Rightarrow> complex" where
  "spec_autocorrelation a k =
     sum_list (map (\<lambda>t. if 0 \<le> int t - k \<and> int t - k < int (length a)
                          then a ! t * cnj (a ! nat (int t - k)) else 0) [0..<length a])"

definition spec_correlate :: "vec3 list \<Rightarrow> vec3 list \<Rightarrow> real \<Rightarrow> complex list list" where
  "spec_correlate q atomic_tr weight =
     map (\<lambda>qv.
       let n = length atomic_tr;
           a = map (spec_amplitude qv) atomic_tr;
           full = map (\<lambda>j. let k = int j - (int n - 1)
                            in spec_autocorrelation a k
                               * complex_of_real (1 / (real n - \<bar>real_of_int k\<bar>))
                               * complex_of_real (weight\<^sup>2))
                      [0..<2 * n - 1]
       in drop (n - 1) full) q"


subsection \<open>Shapes\<close>

text \<open>An array of shape (m, n): m rows of length n.\<close>

definition has_shape :: "nat \<Rightarrow> nat \<Rightarrow> 'a list list \<Rightarrow> bool" where
  "has_shape m n A \<longleftrightarrow> length A = m \<and> list_all (\<lambda>row. length row = n) A"

subsection \<open>serial\_worker in binary64\<close>

text \<open>
  The same computation with the rounding of binary64 after every operation: round to
  nearest, ties to even, 53 significant bits, exponents from -1022 (below that the spacing
  is that of the subnormal numbers). Values stay in the finite range: overflow, NaN and
  the sign of zero are not represented. What numpy leaves to the platform is fixed as
  follows: every product and sum is rounded on its own (no fused multiply-add); the dot
  product of \<open>np.tensordot\<close> and the sums of \<open>np.correlate\<close> add their products from left to
  right; \<open>np.exp\<close> on a complex number is correctly rounded in each component; and
  \<open>atomic_s_inc**2\<close> is the rounded product of the weight with itself. None of this
  matters where all the values are zero or small integers, as for an atom at rest at the
  origin.
\<close>

definition round_half_even :: "real \<Rightarrow> int" where
  "round_half_even y =
     (let f = \<lfloor>y\<rfloor>; r = y - real_of_int f
      in if r < 1 / 2 then f else if 1 / 2 < r then f + 1 else if even f then f else f + 1)"

definition b64_round :: "real \<Rightarrow> real" where
  "b64_round x =
     (if x = 0 then 0
      else let e = max \<lfloor>log 2 \<bar>x\<bar>\<rfloor> (- 1022); u = 2 powr real_of_int (e - 52)
           in real_of_int (round_half_even (x / u)) * u)"

fun b64_dot3 :: "vec3 \<Rightarrow> vec3 \<Rightarrow> real" where
  "b64_dot3 (a, b, c) (x, y, z) =
     b64_round (b64_round (b64_round (a * x) + b64_round (b * y)) + b64_round (c * z))"

definition b64_tensordot :: "vec3 list \<Rightarrow> vec3 list \<Rightarrow> real list list" where
  "b64_tensordot q atomic_tr = map (\<lambda>qv. map (\<lambda>r. b64_dot3 qv r) atomic_tr) q"

text \<open>
  Complex product and sum as numpy computes them on complex128, from the real and
  imaginary parts. A real array times a complex array is the complex product with the
  real number promoted to a complex number of imaginary part 0.
\<close>

definition b64_cadd :: "complex \<Rightarrow> complex \<Rightarrow> complex" where
  "b64_cadd x y = Complex (b64_round (Re x + Re y)) (b64_round (Im x + Im y))"

definition b64_cmul :: "complex \<Rightarrow> complex \<Rightarrow> complex" where
  "b64_cmul x y =
     Complex (b64_round (b64_round (Re x * Re y) - b64_round (Im x * Im y)))
             (b64_round (b64_round (Re x * Im y) + b64_round (Im x * Re y)))"

definition b64_cexp :: "complex \<Rightarrow> complex" where
  "b64_cexp z =
     Complex (b64_round (exp (Re z) * cos (Im z))) (b64_round (exp (Re z) * sin (Im z)))"

definition b64_lag_weights :: "nat \<Rightarrow> real list" where
  "b64_lag_weights n =
     (let w = np_arange 1 (1 + n)
      in map (\<lambda>m. b64_round (1 / real m)) (w @ drop 1 (rev w)))"

definition b64_correlate_full :: "complex list \<Rightarrow> complex list \<Rightarrow> error + complex list" where
  "b64_correlate_full a v =
     (if a = [] \<or> v = [] then Inl ValueError
      else Inr (map (\<lambda>j. foldl (\<lambda>acc n.
                  if length v - 1 \<le> n + j \<and> n + j - (length v - 1) < length a
                  then b64_cadd acc (b64_cmul (a ! (n + j - (length v - 1))) (cnj (v ! n)))
                  else acc) 0 [0..<length v])
                [0..<length a + length v - 1]))"

text \<open>
  Line 55 multiplies the dot products by \<open>-1j\<close>, the complex number of real part 0 and
  imaginary part -1, before \<open>np.exp\<close>; line 59 computes
  \<open>(w * atomic_s_inc**2) * np.correlate(x, x, "full")\<close> from left to right.
\<close>

definition b64_serial_worker :: "vec3 list \<Rightarrow> vec3 list \<Rightarrow> real \<Rightarrow> error + complex list list" where
  "b64_serial_worker q atomic_tr atomic_s_inc =
     (let ai = map (map (\<lambda>x. b64_cexp (b64_cmul (Complex 0 (- 1)) (complex_of_real x))))
                   (b64_tensordot q atomic_tr)
      in if ai = [] then Inl IndexError
         else
           let w = b64_lag_weights (length (ai ! 0))
           in case apply_along_axis
                     (\<lambda>x. case b64_correlate_full x x of
                             Inl e \<Rightarrow> Inl e
                           | Inr c \<Rightarrow>
                               Inr (map2 (\<lambda>u z. b64_cmul
                                            (complex_of_real
                                               (b64_round (u * b64_round (atomic_s_inc * atomic_s_inc))))
                                            z) w c))
                     ai of
                Inl e \<Rightarrow> Inl e
              | Inr result \<Rightarrow> Inr (map (drop (length (result ! 0) div 2)) result))"

section \<open>Properties\<close>

lemma length_lag_weights: "length (lag_weights n) = 2 * n - 1"
  unfolding lag_weights_def np_arange_def Let_def by (simp del: upt_Suc)

lemma lag_weights_nth:
  assumes "j < 2 * n - 1"
  shows "lag_weights n ! j = 1 / real (n - nat \<bar>int j - (int n - 1)\<bar>)"
proof -
  let ?w = "[1..<1 + n]"
  have len: "length ?w = n" by simp
  have j2: "j < length (?w @ drop 1 (rev ?w))" using assms by (simp del: upt_Suc)
  have "(?w @ drop 1 (rev ?w)) ! j = n - nat \<bar>int j - (int n - 1)\<bar>"
  proof (cases "j < n")
    case True
    then have "(?w @ drop 1 (rev ?w)) ! j = ?w ! j" by (simp add: nth_append del: upt_Suc)
    also have "\<dots> = 1 + j" using True by (simp del: upt_Suc)
    also have "\<dots> = n - nat \<bar>int j - (int n - 1)\<bar>" using True by linarith
    finally show ?thesis .
  next
    case False
    then have a: "(?w @ drop 1 (rev ?w)) ! j = drop 1 (rev ?w) ! (j - n)"
      by (simp add: nth_append del: upt_Suc)
    have b: "drop 1 (rev ?w) ! (j - n) = rev ?w ! (1 + (j - n))"
      using False assms by (subst nth_drop) (simp_all del: upt_Suc)
    have c: "rev ?w ! (1 + (j - n)) = ?w ! (n - Suc (1 + (j - n)))"
      using False assms by (subst rev_nth) (simp_all del: upt_Suc)
    have d: "?w ! (n - Suc (1 + (j - n))) = 1 + (n - Suc (1 + (j - n)))"
      using False assms by (subst nth_upt) simp_all
    have "1 + (n - Suc (1 + (j - n))) = n - nat \<bar>int j - (int n - 1)\<bar>"
      using False assms by linarith
    with a b c d show ?thesis by simp
  qed
  moreover have "lag_weights n ! j = 1 / real ((?w @ drop 1 (rev ?w)) ! j)"
    unfolding lag_weights_def np_arange_def Let_def by (rule nth_map[OF j2])
  ultimately show ?thesis by (simp only:)
qed

lemma collect_map_Inr:
  "(\<And>x. x \<in> set xs \<Longrightarrow> f x = Inr (g x)) \<Longrightarrow> collect (map f xs) = Inr (map g xs)"
  by (induction xs) simp_all

lemma np_correlate_full_self:
  assumes "x \<noteq> []"
  shows "np_correlate_full x x =
           Inr (map (\<lambda>j. spec_autocorrelation x (int j - (int (length x) - 1))) [0..<2 * length x - 1])"
proof -
  let ?N = "length x"
  have "sum_list (map (\<lambda>n. if ?N - 1 \<le> n + j \<and> n + j - (?N - 1) < ?N
                  then x ! (n + j - (?N - 1)) * cnj (x ! n) else 0) [0..<?N])
        = spec_autocorrelation x (int j - (int ?N - 1))" (is "?L = ?R") for j
  proof -
    let ?k = "int j - (int ?N - 1)"
    let ?S = "{n. n < ?N \<and> ?N - 1 \<le> n + j \<and> n + j - (?N - 1) < ?N}"
    let ?T = "{t. t < ?N \<and> 0 \<le> int t - ?k \<and> int t - ?k < int ?N}"
    have "?L = (\<Sum>n\<in>{0..<?N}. if n \<in> ?S then x ! (n + j - (?N - 1)) * cnj (x ! n) else 0)"
      by (simp add: interv_sum_list_conv_sum_set_nat cong: if_cong)
    also have "\<dots> = (\<Sum>n\<in>{0..<?N} \<inter> ?S. x ! (n + j - (?N - 1)) * cnj (x ! n))"
      by (subst sum.inter_restrict) simp_all
    also have "{0..<?N} \<inter> ?S = ?S" by auto
    also have "(\<Sum>n\<in>?S. x ! (n + j - (?N - 1)) * cnj (x ! n))
             = (\<Sum>t\<in>?T. x ! t * cnj (x ! nat (int t - ?k)))"
    proof (rule sum.reindex_bij_witness[where i = "\<lambda>t. nat (int t - ?k)" and j = "\<lambda>n. n + j - (?N - 1)"])
      fix n assume "n \<in> ?S"
      then have n: "n < ?N" "?N - 1 \<le> n + j" "n + j - (?N - 1) < ?N" by auto
      then show inv: "nat (int (n + j - (?N - 1)) - ?k) = n" by linarith
      from n show "n + j - (?N - 1) \<in> ?T" by (simp add: of_nat_diff)
      from inv show "x ! (n + j - (?N - 1)) * cnj (x ! nat (int (n + j - (?N - 1)) - ?k))
            = x ! (n + j - (?N - 1)) * cnj (x ! n)" by (simp only:)
    next
      fix t assume "t \<in> ?T"
      then have t: "t < ?N" "0 \<le> int t - ?k" "int t - ?k < int ?N" by auto
      then show "nat (int t - ?k) + j - (?N - 1) = t" by linarith
      from t show "nat (int t - ?k) \<in> ?S" by (simp; linarith)
    qed
    also have "\<dots> = (\<Sum>t\<in>{0..<?N} \<inter> ?T. x ! t * cnj (x ! nat (int t - ?k)))"
      by (rule arg_cong[where f = "sum _"]) auto
    also have "\<dots> = (\<Sum>t\<in>{0..<?N}. if t \<in> ?T then x ! t * cnj (x ! nat (int t - ?k)) else 0)"
      by (subst sum.inter_restrict) simp_all
    also have "\<dots> = ?R"
      by (simp add: spec_autocorrelation_def interv_sum_list_conv_sum_set_nat cong: if_cong)
    finally show ?thesis .
  qed
  moreover have "?N + ?N - 1 = 2 * ?N - 1" by simp
  ultimately show ?thesis
    using assms by (simp add: np_correlate_full_def)
qed

lemma amplitudes_eq:
  "map (map (\<lambda>x. exp (- \<i> * complex_of_real x))) (tensordot q atomic_tr)
     = map (\<lambda>qv. map (spec_amplitude qv) atomic_tr) q"
  by (simp add: tensordot_def spec_amplitude_def comp_def)

lemma weighted_correlation:
  assumes "x \<noteq> []"
  shows "(case np_correlate_full x x of
            Inl e \<Rightarrow> Inl e
          | Inr c \<Rightarrow> Inr (map2 (\<lambda>u z. complex_of_real (u * s\<^sup>2) * z) (lag_weights (length x)) c))
         = Inr (map (\<lambda>j. spec_autocorrelation x (int j - (int (length x) - 1))
                          * complex_of_real (1 / (real (length x) - \<bar>real_of_int (int j - (int (length x) - 1))\<bar>))
                          * complex_of_real (s\<^sup>2))
                    [0..<2 * length x - 1])"
proof -
  let ?N = "length x"
  let ?c = "map (\<lambda>j. spec_autocorrelation x (int j - (int ?N - 1))) [0..<2 * ?N - 1]"
  have "map2 (\<lambda>u z. complex_of_real (u * s\<^sup>2) * z) (lag_weights ?N) ?c
        = map (\<lambda>j. spec_autocorrelation x (int j - (int ?N - 1))
                          * complex_of_real (1 / (real ?N - \<bar>real_of_int (int j - (int ?N - 1))\<bar>))
                          * complex_of_real (s\<^sup>2))
                    [0..<2 * ?N - 1]"
  proof (rule nth_equalityI)
    show "length (map2 (\<lambda>u z. complex_of_real (u * s\<^sup>2) * z) (lag_weights ?N) ?c)
          = length (map (\<lambda>j. spec_autocorrelation x (int j - (int ?N - 1))
                          * complex_of_real (1 / (real ?N - \<bar>real_of_int (int j - (int ?N - 1))\<bar>))
                          * complex_of_real (s\<^sup>2))
                    [0..<2 * ?N - 1])"
      by (simp add: length_lag_weights)
  next
    fix j assume "j < length (map2 (\<lambda>u z. complex_of_real (u * s\<^sup>2) * z) (lag_weights ?N) ?c)"
    then have j: "j < 2 * ?N - 1" by (simp add: length_lag_weights)
    then have "\<bar>int j - (int ?N - 1)\<bar> < int ?N" by linarith
    then have "real (?N - nat \<bar>int j - (int ?N - 1)\<bar>) = real ?N - \<bar>real_of_int (int j - (int ?N - 1))\<bar>"
      by (simp add: of_nat_diff)
    with j show "map2 (\<lambda>u z. complex_of_real (u * s\<^sup>2) * z) (lag_weights ?N) ?c ! j
          = map (\<lambda>j. spec_autocorrelation x (int j - (int ?N - 1))
                          * complex_of_real (1 / (real ?N - \<bar>real_of_int (int j - (int ?N - 1))\<bar>))
                          * complex_of_real (s\<^sup>2))
                    [0..<2 * ?N - 1] ! j"
      by (simp add: length_lag_weights lag_weights_nth)
  qed
  then show ?thesis
    by (simp only: np_correlate_full_self[OF assms] sum.case)
qed

lemma serial_worker_correlate:
  assumes "q \<noteq> []" and "atomic_tr \<noteq> []"
  shows "serial_worker q atomic_tr s = Inr (spec_correlate q atomic_tr s)"
proof -
  let ?N = "length atomic_tr"
  let ?ai = "map (\<lambda>qv. map (spec_amplitude qv) atomic_tr) q"
  let ?g = "\<lambda>x. map (\<lambda>j. spec_autocorrelation x (int j - (int (length x) - 1))
                          * complex_of_real (1 / (real (length x) - \<bar>real_of_int (int j - (int (length x) - 1))\<bar>))
                          * complex_of_real (s\<^sup>2))
                    [0..<2 * length x - 1]"
  let ?f = "\<lambda>x. case np_correlate_full x x of
                             Inl e \<Rightarrow> Inl e
                           | Inr c \<Rightarrow> Inr (map2 (\<lambda>u z. complex_of_real (u * s\<^sup>2) * z) (lag_weights ?N) c)"
  have ai0: "length (?ai ! 0) = ?N" using assms by (simp add: nth_map)
  have ne: "?ai \<noteq> []" using assms by simp
  have "\<And>x. x \<in> set ?ai \<Longrightarrow> ?f x = Inr (?g x)"
  proof -
    fix x assume "x \<in> set ?ai"
    then have len: "?N = length x" by auto
    with assms have "x \<noteq> []" by auto
    then show "?f x = Inr (?g x)" unfolding len by (rule weighted_correlation)
  qed
  then have app: "apply_along_axis ?f ?ai = Inr (map ?g ?ai)"
    using ne by (simp only: apply_along_axis_def if_False collect_map_Inr)
  have "length (map ?g ?ai ! 0) = 2 * ?N - 1" using assms by (simp add: nth_map)
  moreover have "(2 * ?N - 1) div 2 = ?N - 1" using assms by (cases atomic_tr) simp_all
  ultimately have half: "length (map ?g ?ai ! 0) div 2 = ?N - 1" by simp
  have "map (drop (?N - 1)) (map ?g ?ai) = spec_correlate q atomic_tr s"
    by (simp add: spec_correlate_def Let_def comp_def)
  with app half ne ai0 show ?thesis
    unfolding serial_worker_def amplitudes_eq Let_def
    by (simp only: if_False sum.case)
qed

lemma serial_worker_no_wavevector: "serial_worker [] atomic_tr s = Inl IndexError"
  by (simp add: serial_worker_def tensordot_def)

lemma serial_worker_no_frame:
  assumes "q \<noteq> []"
  shows "serial_worker q [] s = Inl ValueError"
proof -
  obtain qv qs where q: "q = qv # qs" using assms by (cases q) auto
  show ?thesis
    by (simp add: q serial_worker_def tensordot_def apply_along_axis_def np_correlate_full_def)
qed

lemma length_correlate: "length (spec_correlate q atomic_tr s) = length q"
  by (simp add: spec_correlate_def)

lemma length_correlate_row:
  assumes "j < length q"
  shows "length (spec_correlate q atomic_tr s ! j) = length atomic_tr"
  using assms by (simp add: spec_correlate_def Let_def)

lemma correlate_nth:
  assumes "j < length q" and "k < length atomic_tr"
  shows "spec_correlate q atomic_tr s ! j ! k
         = spec_autocorrelation (map (spec_amplitude (q ! j)) atomic_tr) (int k)
           * complex_of_real (1 / (real (length atomic_tr) - real k))
           * complex_of_real (s\<^sup>2)"
proof -
  let ?N = "length atomic_tr"
  have a: "?N - 1 + k < 2 * ?N - 1" using assms by linarith
  have b: "int (?N - 1 + k) - (int ?N - 1) = int k" using assms by linarith
  have c: "real ?N - \<bar>real_of_int (int k)\<bar> = real ?N - real k" by simp
  let ?F = "\<lambda>i. spec_autocorrelation (map (spec_amplitude (q ! j)) atomic_tr) (int i - (int ?N - 1))
                 * complex_of_real (1 / (real ?N - \<bar>real_of_int (int i - (int ?N - 1))\<bar>))
                 * complex_of_real (s\<^sup>2)"
  have "spec_correlate q atomic_tr s ! j = drop (?N - 1) (map ?F [0..<2 * ?N - 1])"
    using assms(1) by (simp add: spec_correlate_def Let_def)
  also have "\<dots> ! k = map ?F [0..<2 * ?N - 1] ! (?N - 1 + k)"
    using a by (subst nth_drop) simp_all
  also have "\<dots> = ?F (?N - 1 + k)"
    using a by (simp only: nth_map length_upt minus_nat.diff_0 nth_upt add_0)
  finally show ?thesis by (simp only: b c)
qed

lemma amplitude_cnj: "spec_amplitude qv r * cnj (spec_amplitude qv r) = 1"
proof -
  have "spec_amplitude qv r = cis (- dot3 qv r)"
    by (simp add: spec_amplitude_def cis_conv_exp)
  then show ?thesis
    by (simp add: cis_cnj cis_mult)
qed

lemma autocorrelation_lag0:
  "spec_autocorrelation (map (spec_amplitude qv) atomic_tr) 0 = of_nat (length atomic_tr)"
proof -
  have "spec_autocorrelation (map (spec_amplitude qv) atomic_tr) 0
        = (\<Sum>t = 0..<length atomic_tr. spec_amplitude qv (atomic_tr ! t) * cnj (spec_amplitude qv (atomic_tr ! t)))"
    by (simp add: spec_autocorrelation_def interv_sum_list_conv_sum_set_nat)
  then show ?thesis by (simp add: amplitude_cnj)
qed

lemma correlate_lag0:
  assumes "j < length q" and "atomic_tr \<noteq> []"
  shows "spec_correlate q atomic_tr s ! j ! 0 = complex_of_real (s\<^sup>2)"
proof -
  have "0 < length atomic_tr" using assms by simp
  then show ?thesis
    using correlate_nth[OF assms(1), of 0 atomic_tr s] autocorrelation_lag0[of "q ! j" atomic_tr]
    by simp
qed

text \<open>
  C4. For every number of frames \<open>n \<ge> 1\<close> the lag weights built in \<open>serial_worker\<close> have
  length \<open>2 * n - 1\<close>, are symmetric about the centre (index \<open>n - 1\<close>), are strictly
  positive, and the entry at offset \<open>k\<close> from the centre is \<open>1 / (n - |k|)\<close>, the reciprocal
  of the number of frame pairs that overlap at lag \<open>k\<close>.
\<close>

theorem lag_weights_reciprocal_overlap:
  assumes "1 \<le> n"
  shows "length (lag_weights n) = 2 * n - 1
       \<and> (\<forall>j<2 * n - 1. lag_weights n ! j = lag_weights n ! (2 * n - 2 - j))
       \<and> (\<forall>j<2 * n - 1. 0 < lag_weights n ! j)
       \<and> (\<forall>k::int. \<bar>k\<bar> < int n \<longrightarrow>
             lag_weights n ! nat (int n - 1 + k) = 1 / (real n - \<bar>real_of_int k\<bar>))"
proof (intro conjI allI impI)
  show "length (lag_weights n) = 2 * n - 1" by (rule length_lag_weights)
next
  fix j assume j: "j < 2 * n - 1"
  then have j': "2 * n - 2 - j < 2 * n - 1" by simp
  have "\<bar>int (2 * n - 2 - j) - (int n - 1)\<bar> = \<bar>int j - (int n - 1)\<bar>" using j by linarith
  then show "lag_weights n ! j = lag_weights n ! (2 * n - 2 - j)"
    by (simp only: lag_weights_nth[OF j] lag_weights_nth[OF j'])
next
  fix j assume j: "j < 2 * n - 1"
  then have "nat \<bar>int j - (int n - 1)\<bar> < n" by linarith
  then show "0 < lag_weights n ! j"
    by (simp add: lag_weights_nth[OF j])
next
  fix k :: int assume k: "\<bar>k\<bar> < int n"
  then have j: "nat (int n - 1 + k) < 2 * n - 1" by linarith
  have "int (nat (int n - 1 + k)) - (int n - 1) = k" using k by linarith
  then have "lag_weights n ! nat (int n - 1 + k) = 1 / real (n - nat \<bar>k\<bar>)"
    by (simp only: lag_weights_nth[OF j])
  also have "real (n - nat \<bar>k\<bar>) = real n - \<bar>real_of_int k\<bar>"
    using k by (simp add: of_nat_diff)
  finally show "lag_weights n ! nat (int n - 1 + k) = 1 / (real n - \<bar>real_of_int k\<bar>)" .
qed

theorem lag_weights_reciprocal_overlap_witness:
  "(1::nat) \<le> 2 \<and> lag_weights 2 = [1, 1 / 2, 1] \<and> length (lag_weights 2) = 2 * 2 - 1
   \<and> 0 < lag_weights 2 ! 1 \<and> lag_weights 2 ! 0 = lag_weights 2 ! (2 * 2 - 2 - 0)"
proof -
  have h: "(1::nat) \<le> 2" by simp
  have "[1..<3] = [1, 2::nat]" by code_simp
  then have lw: "lag_weights 2 = [1, 1 / 2, 1]" by (simp add: lag_weights_def np_arange_def)
  note inst = lag_weights_reciprocal_overlap[OF h]
  from inst have len: "length (lag_weights 2) = 2 * 2 - 1" by (rule conjunct1)
  from inst have sym: "\<forall>j<2 * 2 - 1. lag_weights 2 ! j = lag_weights 2 ! (2 * 2 - 2 - j)"
    by (elim conjE)
  from inst have pos: "\<forall>j<2 * 2 - 1. 0 < lag_weights 2 ! j" by (elim conjE)
  have p1: "0 < lag_weights 2 ! 1" by (rule pos[rule_format]) simp
  have s0: "lag_weights 2 ! 0 = lag_weights 2 ! (2 * 2 - 2 - 0)" by (rule sym[rule_format]) simp
  from h lw len p1 s0 show ?thesis by (intro conjI)
qed

text \<open>
  C1. For a trajectory of one atom with at least one frame, a weight and at least one
  wavevector, \<open>serial_worker\<close> returns what the specification describes: per wavevector
  the amplitudes, their full linear autocorrelation, weighted by the reciprocal overlap
  counts and the squared weight, cut to the lags \<open>0 .. n - 1\<close>; the shape of the result is
  (#wavevectors, #frames).
\<close>

theorem serial_worker_is_correlate:
  assumes "q \<noteq> []" and "atomic_tr \<noteq> []"
  shows "serial_worker q atomic_tr weight = Inr (spec_correlate q atomic_tr weight)
       \<and> length (spec_correlate q atomic_tr weight) = length q
       \<and> (\<forall>row\<in>set (spec_correlate q atomic_tr weight). length row = length atomic_tr)"
proof (intro conjI ballI)
  show "serial_worker q atomic_tr weight = Inr (spec_correlate q atomic_tr weight)"
    using assms by (rule serial_worker_correlate)
  show "length (spec_correlate q atomic_tr weight) = length q" by (rule length_correlate)
  fix row assume "row \<in> set (spec_correlate q atomic_tr weight)"
  then obtain j where "j < length q" and "row = spec_correlate q atomic_tr weight ! j"
    by (auto simp: in_set_conv_nth length_correlate)
  then show "length row = length atomic_tr" by (simp add: length_correlate_row)
qed

theorem serial_worker_is_correlate_witness:
  "[(0, 0, 1)] \<noteq> ([] :: vec3 list) \<and> [(0, 0, 0), (1, 0, 0)] \<noteq> ([] :: vec3 list)
   \<and> serial_worker [(0, 0, 1)] [(0, 0, 0), (1, 0, 0)] 2 = Inr [[4, 4]]"
proof -
  have q: "[(0, 0, 1)] \<noteq> ([] :: vec3 list)" and a: "[(0, 0, 0), (1, 0, 0)] \<noteq> ([] :: vec3 list)"
    by simp_all
  have "[0..<3] = [0, 1, 2::nat]" by code_simp
  then have c: "spec_correlate [(0, 0, 1)] [(0, 0, 0), (1, 0, 0)] 2 = [[4, 4]]"
    by (simp add: spec_correlate_def spec_autocorrelation_def spec_amplitude_def Let_def)
  from serial_worker_is_correlate[OF q a, of 2]
  have "serial_worker [(0, 0, 1)] [(0, 0, 0), (1, 0, 0)] 2
        = Inr (spec_correlate [(0, 0, 1)] [(0, 0, 0), (1, 0, 0)] 2)" by (rule conjunct1)
  then have "serial_worker [(0, 0, 1)] [(0, 0, 0), (1, 0, 0)] 2 = Inr [[4, 4]]"
    by (simp only: c)
  with q a show ?thesis by (intro conjI)
qed

lemma has_shape_nth: "has_shape m n A \<Longrightarrow> j < m \<Longrightarrow> length (A ! j) = n"
  by (simp add: has_shape_def list_all_length)

lemma has_shapeI: "length A = m \<Longrightarrow> (\<And>j. j < m \<Longrightarrow> length (A ! j) = n) \<Longrightarrow> has_shape m n A"
  by (simp add: has_shape_def list_all_length)

lemma has_shape_eqI:
  assumes "has_shape m n A" and "has_shape m n B"
    and "\<And>j k. j < m \<Longrightarrow> k < n \<Longrightarrow> A ! j ! k = B ! j ! k"
  shows "A = B"
proof (rule nth_equalityI)
  show "length A = length B" using assms(1,2) by (simp add: has_shape_def)
next
  fix j assume "j < length A"
  then have j: "j < m" using assms(1) by (simp add: has_shape_def)
  show "A ! j = B ! j"
  proof (rule nth_equalityI)
    show "length (A ! j) = length (B ! j)"
      using has_shape_nth[OF assms(1) j] has_shape_nth[OF assms(2) j] by simp
  next
    fix k assume "k < length (A ! j)"
    then have "k < n" using has_shape_nth[OF assms(1) j] by simp
    with j show "A ! j ! k = B ! j ! k" by (rule assms(3))
  qed
qed

lemma np_add_shape:
  assumes "has_shape m n x" and "has_shape m n y"
  shows "has_shape m n (np_add x y)"
proof (rule has_shapeI)
  show "length (np_add x y) = m" using assms by (simp add: np_add_def has_shape_def)
next
  fix j assume "j < m"
  then show "length (np_add x y ! j) = n"
    using assms has_shape_nth[OF assms(1)] has_shape_nth[OF assms(2)]
    by (simp add: np_add_def has_shape_def)
qed

lemma np_add_nth:
  assumes "has_shape m n x" and "has_shape m n y" and "j < m" and "k < n"
  shows "np_add x y ! j ! k = x ! j ! k + y ! j ! k"
  using assms has_shape_nth[OF assms(1,3)] has_shape_nth[OF assms(2,3)]
  by (simp add: np_add_def has_shape_def)

lemma foldl_np_add:
  "has_shape m n a \<Longrightarrow> (\<forall>x\<in>set xs. has_shape m n x) \<Longrightarrow>
     has_shape m n (foldl np_add a xs)
     \<and> (\<forall>j<m. \<forall>k<n. foldl np_add a xs ! j ! k = a ! j ! k + sum_list (map (\<lambda>x. x ! j ! k) xs))"
proof (induction xs arbitrary: a)
  case Nil
  then show ?case by simp
next
  case (Cons x xs)
  have x: "has_shape m n x" and xs: "\<forall>y\<in>set xs. has_shape m n y"
    using Cons.prems(2) by simp_all
  have s: "has_shape m n (np_add a x)" using Cons.prems(1) x by (rule np_add_shape)
  have e: "\<forall>j<m. \<forall>k<n. np_add a x ! j ! k = a ! j ! k + x ! j ! k"
    using np_add_nth[OF Cons.prems(1) x] by blast
  from Cons.IH[OF s xs] e show ?case by (simp add: add.assoc)
qed

lemma reduce_np_add:
  assumes "rs \<noteq> []" and "\<And>x. x \<in> set rs \<Longrightarrow> has_shape m n x"
  shows "\<exists>R. reduce np_add rs = Inr R \<and> has_shape m n R
           \<and> (\<forall>j<m. \<forall>k<n. R ! j ! k = sum_list (map (\<lambda>x. x ! j ! k) rs))"
proof -
  obtain x xs where rs: "rs = x # xs" using assms(1) by (cases rs) auto
  have x: "has_shape m n x" and xs: "\<forall>y\<in>set xs. has_shape m n y"
    using assms(2) by (simp_all add: rs)
  show ?thesis
    using foldl_np_add[OF x xs] by (simp add: rs)
qed

lemma reduce_np_add_mset:
  assumes "mset rs' = mset rs" and "\<And>x. x \<in> set rs \<Longrightarrow> has_shape m n x"
  shows "reduce np_add rs' = reduce np_add rs"
proof (cases "rs = []")
  case True
  with assms(1) show ?thesis by simp
next
  case False
  then have ne': "rs' \<noteq> []" using assms(1) by auto
  have sh': "\<And>x. x \<in> set rs' \<Longrightarrow> has_shape m n x"
    using assms by (metis set_mset_mset)
  obtain R where R: "reduce np_add rs = Inr R" "has_shape m n R"
      "\<forall>j<m. \<forall>k<n. R ! j ! k = sum_list (map (\<lambda>x. x ! j ! k) rs)"
    using reduce_np_add[OF False assms(2)] by blast
  obtain R' where R': "reduce np_add rs' = Inr R'" "has_shape m n R'"
      "\<forall>j<m. \<forall>k<n. R' ! j ! k = sum_list (map (\<lambda>x. x ! j ! k) rs')"
    using reduce_np_add[OF ne' sh'] by blast
  have "R' = R"
  proof (rule has_shape_eqI[OF R'(2) R(2)])
    fix j k assume jk: "j < m" "k < n"
    have "sum_list (map (\<lambda>x. x ! j ! k) rs') = sum_mset (image_mset (\<lambda>x. x ! j ! k) (mset rs'))"
      by (simp add: sum_mset_sum_list[symmetric])
    also have "\<dots> = sum_list (map (\<lambda>x. x ! j ! k) rs)"
      by (simp add: assms(1) sum_mset_sum_list[symmetric])
    finally show "R' ! j ! k = R ! j ! k" using jk R(3) R'(3) by simp
  qed
  with R(1) R'(1) show ?thesis by simp
qed

lemma correlate_shape: "has_shape (length q) (length atomic_tr) (spec_correlate q atomic_tr s)"
  by (rule has_shapeI) (simp_all add: length_correlate length_correlate_row)

lemma workers_collect:
  assumes "q \<noteq> []" and "\<And>a w. (a, w) \<in> set ps \<Longrightarrow> a \<noteq> []"
  shows "collect (map (\<lambda>(atomic_tr, atomic_s_inc). serial_worker q atomic_tr atomic_s_inc) ps)
         = Inr (map (\<lambda>(a, w). spec_correlate q a w) ps)"
proof (rule collect_map_Inr)
  fix x assume "x \<in> set ps"
  moreover obtain a w where "x = (a, w)" by (cases x)
  ultimately show "(case x of (atomic_tr, atomic_s_inc) \<Rightarrow> serial_worker q atomic_tr atomic_s_inc)
             = Inr (case x of (a, w) \<Rightarrow> spec_correlate q a w)"
    using assms by (simp add: serial_worker_correlate)
qed

lemma intermediate_vector_set_entries:
  assumes q: "q \<noteq> []" and ne: "zip tr s_inc \<noteq> []"
    and rect: "\<And>a. a \<in> set tr \<Longrightarrow> length a = n" and n: "1 \<le> n"
  shows "\<exists>sf. intermediate_vector_set tr q s_inc = Inr sf \<and> has_shape (length q) n sf
           \<and> (\<forall>j<length q. \<forall>k<n. sf ! j ! k =
                 np_true_divide
                   (Finite (sum_list (map (\<lambda>(a, w). spec_correlate q a w ! j ! k) (zip tr s_inc))))
                   (sum_list (map (\<lambda>s. s * s) s_inc)))"
proof -
  let ?ps = "zip tr s_inc"
  let ?rs = "map (\<lambda>(a, w). spec_correlate q a w) ?ps"
  let ?d = "sum_list (map (\<lambda>s. s * s) s_inc)"
  have mem: "\<And>a w. (a, w) \<in> set ?ps \<Longrightarrow> length a = n"
    using rect by (auto dest: set_zip_leftD)
  have "\<And>a w. (a, w) \<in> set ?ps \<Longrightarrow> a \<noteq> []"
    using mem n by fastforce
  then have coll: "collect (map (\<lambda>(atomic_tr, atomic_s_inc). serial_worker q atomic_tr atomic_s_inc) ?ps)
                   = Inr ?rs"
    using q by (intro workers_collect)
  have sh: "\<And>x. x \<in> set ?rs \<Longrightarrow> has_shape (length q) n x"
    using mem correlate_shape by fastforce
  have "?rs \<noteq> []" using ne by simp
  from reduce_np_add[OF this sh]
  obtain R where R: "reduce np_add ?rs = Inr R" "has_shape (length q) n R"
      "\<forall>j<length q. \<forall>k<n. R ! j ! k = sum_list (map (\<lambda>x. x ! j ! k) ?rs)"
    by blast
  let ?sf = "map (map (\<lambda>z. np_true_divide (Finite z) ?d)) R"
  have eq: "intermediate_vector_set tr q s_inc = Inr ?sf"
    unfolding intermediate_vector_set_def by (simp only: coll R(1) sum.case)
  have shape: "has_shape (length q) n ?sf"
    using R(2) by (simp add: has_shape_def list_all_iff)
  have sums: "sum_list (map (\<lambda>x. x ! j ! k) ?rs)
              = sum_list (map (\<lambda>(a, w). spec_correlate q a w ! j ! k) ?ps)" for j k
    by (simp add: comp_def split_def)
  have "\<forall>j<length q. \<forall>k<n. ?sf ! j ! k =
          np_true_divide (Finite (sum_list (map (\<lambda>(a, w). spec_correlate q a w ! j ! k) ?ps))) ?d"
  proof (intro allI impI)
    fix j k assume j: "j < length q" and k: "k < n"
    have lj: "j < length R" using R(2) j by (simp add: has_shape_def)
    have lk: "k < length (R ! j)" using has_shape_nth[OF R(2) j] k by simp
    have "?sf ! j ! k = np_true_divide (Finite (R ! j ! k)) ?d"
      using lj lk by simp
    also have "R ! j ! k = sum_list (map (\<lambda>(a, w). spec_correlate q a w ! j ! k) ?ps)"
      using R(3) j k sums by simp
    finally show "?sf ! j ! k =
          np_true_divide (Finite (sum_list (map (\<lambda>(a, w). spec_correlate q a w ! j ! k) ?ps))) ?d" .
  qed
  with eq shape show ?thesis by blast
qed

lemma sum_list_of_real:
  "sum_list (map (\<lambda>x. complex_of_real (f x)) xs) = complex_of_real (sum_list (map f xs))"
  by (induction xs) simp_all

lemma sum_list_zip_nth:
  "sum_list (map (\<lambda>(a, w). f a w) (zip xs ys))
     = (\<Sum>i<min (length xs) (length ys). f (xs ! i) (ys ! i))"
proof -
  have "sum_list (map (\<lambda>(a, w). f a w) (zip xs ys))
        = (\<Sum>i = 0..<length (zip xs ys). map (\<lambda>(a, w). f a w) (zip xs ys) ! i)"
    by (simp add: sum_list_sum_nth)
  also have "\<dots> = (\<Sum>i = 0..<min (length xs) (length ys). f (xs ! i) (ys ! i))"
    by (intro sum.cong) simp_all
  finally show ?thesis by (simp add: atLeast0LessThan)
qed

lemma sum_list_squares_nth:
  "sum_list (map (\<lambda>s. s * s) (ws :: real list)) = (\<Sum>i<length ws. (ws ! i)\<^sup>2)"
proof -
  have "sum_list (map (\<lambda>s. s * s) ws) = (\<Sum>i = 0..<length ws. map (\<lambda>s. s * s) ws ! i)"
    by (simp add: sum_list_sum_nth)
  also have "\<dots> = (\<Sum>i = 0..<length ws. (ws ! i)\<^sup>2)"
    by (intro sum.cong) (simp_all add: power2_eq_square)
  finally show ?thesis by (simp add: atLeast0LessThan)
qed

lemma lag0_sum:
  assumes rect: "\<And>a. a \<in> set tr \<Longrightarrow> length a = n" and n: "1 \<le> n" and j: "j < length q"
  shows "sum_list (map (\<lambda>(a, w). spec_correlate q a w ! j ! 0) (zip tr s_inc))
         = complex_of_real (sum_list (map (\<lambda>s. s * s) (map snd (zip tr s_inc))))"
proof -
  have "map (\<lambda>(a, w). spec_correlate q a w ! j ! 0) (zip tr s_inc)
        = map (\<lambda>p. complex_of_real (snd p * snd p)) (zip tr s_inc)"
  proof (rule map_cong[OF refl])
    fix p assume p: "p \<in> set (zip tr s_inc)"
    obtain a w where aw: "p = (a, w)" by (cases p)
    with p have "a \<in> set tr" by (auto dest: set_zip_leftD)
    then have "a \<noteq> []" using rect[of a] n by auto
    then show "(case p of (a, w) \<Rightarrow> spec_correlate q a w ! j ! 0) = complex_of_real (snd p * snd p)"
      using correlate_lag0[OF j, of a w] by (simp add: aw power2_eq_square)
  qed
  then have "sum_list (map (\<lambda>(a, w). spec_correlate q a w ! j ! 0) (zip tr s_inc))
             = sum_list (map (\<lambda>p. complex_of_real (snd p * snd p)) (zip tr s_inc))"
    by (rule arg_cong)
  also have "\<dots> = complex_of_real (sum_list (map (\<lambda>p. snd p * snd p) (zip tr s_inc)))"
    by (rule sum_list_of_real)
  also have "map (\<lambda>p. snd p * snd p) (zip tr s_inc) = map (\<lambda>s. s * s) (map snd (zip tr s_inc))"
    by (simp add: comp_def)
  finally show ?thesis .
qed

lemma has_shape_1_1: "has_shape 1 1 A \<Longrightarrow> A = [[A ! 0 ! 0]]"
proof -
  assume a: "has_shape 1 1 A"
  then obtain r where A: "A = [r]" by (cases A) (auto simp: has_shape_def)
  with a obtain x where "r = [x]" by (cases r) (auto simp: has_shape_def)
  with A show ?thesis by simp
qed

lemma serial_worker_example:
  "serial_worker [(0, 0, 1)] [(0, 0, 0), (1, 0, 0)] 2 = Inr [[4, 4]]"
proof -
  have "[0..<3] = [0, 1, 2::nat]" by code_simp
  then have "spec_correlate [(0, 0, 1)] [(0, 0, 0), (1, 0, 0)] 2 = [[4, 4]]"
    by (simp add: spec_correlate_def spec_autocorrelation_def spec_amplitude_def Let_def)
  then show ?thesis by (simp add: serial_worker_correlate)
qed

lemma intermediate_vector_set_paired:
  assumes "tr \<noteq> []" and "s_inc \<noteq> []"
    and "\<forall>a\<in>set tr. length a = n" and "1 \<le> n" and "q \<noteq> []"
  shows "\<exists>per_atom sf.
           length per_atom = min (length tr) (length s_inc)
         \<and> (\<forall>i<min (length tr) (length s_inc).
                serial_worker q (tr ! i) (s_inc ! i) = Inr (per_atom ! i))
         \<and> intermediate_vector_set tr q s_inc = Inr sf
         \<and> length sf = length q
         \<and> (\<forall>j<length q. length (sf ! j) = n
               \<and> (\<forall>k<n. sf ! j ! k =
                     np_true_divide
                       (Finite (\<Sum>i<min (length tr) (length s_inc). per_atom ! i ! j ! k))
                       (\<Sum>i<length s_inc. (s_inc ! i)\<^sup>2)))"
proof -
  let ?m = "min (length tr) (length s_inc)"
  let ?pa = "map (\<lambda>(a, w). spec_correlate q a w) (zip tr s_inc)"
  have rect: "\<And>a. a \<in> set tr \<Longrightarrow> length a = n" using assms(3) by blast
  have ne: "zip tr s_inc \<noteq> []" using assms(1,2) by (cases tr; cases s_inc) simp_all
  from intermediate_vector_set_entries[OF assms(5) ne rect assms(4)]
  obtain sf where sf: "intermediate_vector_set tr q s_inc = Inr sf" "has_shape (length q) n sf"
    and ent: "\<forall>j<length q. \<forall>k<n. sf ! j ! k =
                 np_true_divide
                   (Finite (sum_list (map (\<lambda>(a, w). spec_correlate q a w ! j ! k) (zip tr s_inc))))
                   (sum_list (map (\<lambda>s. s * s) s_inc))"
    by blast
  have len: "length ?pa = ?m" by simp
  have workers: "\<forall>i<?m. serial_worker q (tr ! i) (s_inc ! i) = Inr (?pa ! i)"
  proof (intro allI impI)
    fix i assume i: "i < ?m"
    then have "tr ! i \<in> set tr" by simp
    then have "tr ! i \<noteq> []" using rect[of "tr ! i"] assms(4) by auto
    then show "serial_worker q (tr ! i) (s_inc ! i) = Inr (?pa ! i)"
      using i assms(5) by (simp add: serial_worker_correlate)
  qed
  have "(\<Sum>i<?m. spec_correlate q (tr ! i) (s_inc ! i) ! j ! k) = (\<Sum>i<?m. ?pa ! i ! j ! k)" for j k
    by (intro sum.cong) simp_all
  then have sums: "sum_list (map (\<lambda>(a, w). spec_correlate q a w ! j ! k) (zip tr s_inc))
              = (\<Sum>i<?m. ?pa ! i ! j ! k)" for j k
    by (simp only: sum_list_zip_nth[of "\<lambda>a w. spec_correlate q a w ! j ! k" tr s_inc])
  have entries: "\<forall>j<length q. length (sf ! j) = n
               \<and> (\<forall>k<n. sf ! j ! k =
                     np_true_divide (Finite (\<Sum>i<?m. ?pa ! i ! j ! k))
                                    (\<Sum>i<length s_inc. (s_inc ! i)\<^sup>2))"
    using ent has_shape_nth[OF sf(2)] by (simp only: sums sum_list_squares_nth) blast
  have "length sf = length q" using sf(2) by (simp add: has_shape_def)
  with len workers sf(1) entries show ?thesis by blast
qed

text \<open>
  C2. For a trajectory of at least one atom, each with the same \<open>n \<ge> 1\<close> frames, one weight
  per atom and at least one wavevector, every per-atom call returns, and
  \<open>intermediate_vector_set\<close> returns the elementwise sum of the per-atom results divided by
  the sum over the atoms of the squared weight; the shape of the result is
  (#wavevectors, #frames).
\<close>

theorem intermediate_vector_set_sum_normalised:
  assumes "tr \<noteq> []" and "length s_inc = length tr"
    and "\<forall>a\<in>set tr. length a = n" and "1 \<le> n" and "q \<noteq> []"
  shows "\<exists>per_atom sf.
           length per_atom = length tr
         \<and> (\<forall>i<length tr. serial_worker q (tr ! i) (s_inc ! i) = Inr (per_atom ! i))
         \<and> intermediate_vector_set tr q s_inc = Inr sf
         \<and> length sf = length q
         \<and> (\<forall>j<length q. length (sf ! j) = n
               \<and> (\<forall>k<n. sf ! j ! k =
                     np_true_divide (Finite (\<Sum>i<length tr. per_atom ! i ! j ! k))
                                    (\<Sum>i<length tr. (s_inc ! i)\<^sup>2)))"
proof -
  have "s_inc \<noteq> []" using assms(1,2) by auto
  from intermediate_vector_set_paired[OF assms(1) this assms(3,4,5)]
  show ?thesis by (simp only: assms(2) min.idem)
qed

theorem intermediate_vector_set_sum_normalised_witness:
  "[[(0, 0, 0), (1, 0, 0)]] \<noteq> ([] :: vec3 list list) \<and> length [2::real] = length [[(0, 0, 0), (1, 0, 0) :: vec3]]
   \<and> (1::nat) \<le> 2 \<and> [(0, 0, 1)] \<noteq> ([] :: vec3 list)
   \<and> (\<exists>sf. intermediate_vector_set [[(0, 0, 0), (1, 0, 0)]] [(0, 0, 1)] [2] = Inr sf
          \<and> length sf = 1 \<and> length (sf ! 0) = 2 \<and> sf ! 0 ! 0 = Finite 1 \<and> sf ! 0 ! 1 = Finite 1)"
proof -
  let ?tr = "[[(0, 0, 0), (1, 0, 0)]] :: vec3 list list"
  let ?q = "[(0, 0, 1)] :: vec3 list"
  let ?s = "[2] :: real list"
  have h1: "?tr \<noteq> []" and h2: "length ?s = length ?tr" and h3: "\<forall>a\<in>set ?tr. length a = 2"
    and h4: "(1::nat) \<le> 2" and h5: "?q \<noteq> []"
    by simp_all
  from intermediate_vector_set_sum_normalised[OF h1 h2 h3 h4 h5]
  obtain per_atom sf where
    w: "\<forall>i<length ?tr. serial_worker ?q (?tr ! i) (?s ! i) = Inr (per_atom ! i)"
    and sf: "intermediate_vector_set ?tr ?q ?s = Inr sf" "length sf = length ?q"
    and ent: "\<forall>j<length ?q. length (sf ! j) = 2
               \<and> (\<forall>k<2. sf ! j ! k =
                     np_true_divide (Finite (\<Sum>i<length ?tr. per_atom ! i ! j ! k))
                                    (\<Sum>i<length ?tr. (?s ! i)\<^sup>2))"
    by blast
  from w have "serial_worker ?q (?tr ! 0) (?s ! 0) = Inr (per_atom ! 0)" by simp
  then have pa: "per_atom ! 0 = [[4, 4]]" by (simp add: serial_worker_example)
  from ent have e0: "length (sf ! 0) = 2
               \<and> (\<forall>k<2. sf ! 0 ! k =
                     np_true_divide (Finite (\<Sum>i<length ?tr. per_atom ! i ! 0 ! k))
                                    (\<Sum>i<length ?tr. (?s ! i)\<^sup>2))"
    by simp
  then have l0: "length (sf ! 0) = 2" by (rule conjunct1)
  from e0 have "sf ! 0 ! 0 = np_true_divide (Finite (\<Sum>i<length ?tr. per_atom ! i ! 0 ! 0))
                                    (\<Sum>i<length ?tr. (?s ! i)\<^sup>2)" by simp
  then have v0: "sf ! 0 ! 0 = Finite 1" by (simp add: pa)
  from e0 have "sf ! 0 ! 1 = np_true_divide (Finite (\<Sum>i<length ?tr. per_atom ! i ! 0 ! 1))
                                    (\<Sum>i<length ?tr. (?s ! i)\<^sup>2)" by simp
  then have v1: "sf ! 0 ! 1 = Finite 1" by (simp add: pa)
  from sf(2) have l: "length sf = 1" by simp
  from sf(1) l l0 v0 v1 have "\<exists>sf. intermediate_vector_set ?tr ?q ?s = Inr sf
          \<and> length sf = 1 \<and> length (sf ! 0) = 2 \<and> sf ! 0 ! 0 = Finite 1 \<and> sf ! 0 ! 1 = Finite 1"
    by blast
  with h1 h2 h4 h5 show ?thesis by (intro conjI)
qed

lemma intermediate_vector_set_lag0:
  assumes q: "q \<noteq> []" and ne: "zip tr s_inc \<noteq> []"
    and rect: "\<And>a. a \<in> set tr \<Longrightarrow> length a = n" and n: "1 \<le> n"
  shows "\<exists>sf. intermediate_vector_set tr q s_inc = Inr sf \<and> has_shape (length q) n sf
           \<and> (\<forall>j<length q. sf ! j ! 0 =
                 np_true_divide
                   (Finite (complex_of_real (sum_list (map (\<lambda>s. s * s) (map snd (zip tr s_inc))))))
                   (sum_list (map (\<lambda>s. s * s) s_inc)))"
proof -
  from intermediate_vector_set_entries[OF q ne rect n]
  obtain sf where sf: "intermediate_vector_set tr q s_inc = Inr sf" "has_shape (length q) n sf"
    and ent: "\<forall>j<length q. \<forall>k<n. sf ! j ! k =
                 np_true_divide
                   (Finite (sum_list (map (\<lambda>(a, w). spec_correlate q a w ! j ! k) (zip tr s_inc))))
                   (sum_list (map (\<lambda>s. s * s) s_inc))"
    by blast
  have "\<forall>j<length q. sf ! j ! 0 =
                 np_true_divide
                   (Finite (complex_of_real (sum_list (map (\<lambda>s. s * s) (map snd (zip tr s_inc))))))
                   (sum_list (map (\<lambda>s. s * s) s_inc))"
  proof (intro allI impI)
    fix j assume j: "j < length q"
    have "0 < n" using n by simp
    with ent j have "sf ! j ! 0 =
                 np_true_divide
                   (Finite (sum_list (map (\<lambda>(a, w). spec_correlate q a w ! j ! 0) (zip tr s_inc))))
                   (sum_list (map (\<lambda>s. s * s) s_inc))" by blast
    then show "sf ! j ! 0 =
                 np_true_divide
                   (Finite (complex_of_real (sum_list (map (\<lambda>s. s * s) (map snd (zip tr s_inc))))))
                   (sum_list (map (\<lambda>s. s * s) s_inc))"
      by (simp only: lag0_sum[OF rect n j])
  qed
  with sf show ?thesis by blast
qed

lemma serial_worker_lag0:
  assumes "q \<noteq> []" and "atomic_tr \<noteq> []"
  shows "\<exists>r. serial_worker q atomic_tr w = Inr r \<and> (\<forall>j<length q. r ! j ! 0 = complex_of_real (w\<^sup>2))"
  using assms by (simp add: serial_worker_correlate correlate_lag0)

text \<open>
  C10, amended. In exact arithmetic, for every atom (at least one frame), every
  wavevector and every weight \<open>w\<close> the per-atom result at lag 0 is \<open>w\<^sup>2\<close>; so, whenever
  the sum of the squared weights is positive, the lag-0 column of the result of
  \<open>intermediate_vector_set\<close> is 1 at every wavevector. The rounding of binary64 can break
  the equality: see the counterexample for C10 at the end.
\<close>

theorem lag0_is_squared_weight:
  assumes "tr \<noteq> []" and "length s_inc = length tr"
    and "\<forall>a\<in>set tr. length a = n" and "1 \<le> n" and "q \<noteq> []"
  shows "(\<forall>atomic_tr w. atomic_tr \<noteq> [] \<longrightarrow>
            (\<exists>r. serial_worker q atomic_tr w = Inr r
                \<and> (\<forall>j<length q. r ! j ! 0 = complex_of_real (w\<^sup>2))))
       \<and> (0 < sum_list (map (\<lambda>s. s * s) s_inc) \<longrightarrow>
            (\<exists>sf. intermediate_vector_set tr q s_inc = Inr sf
                 \<and> (\<forall>j<length q. sf ! j ! 0 = Finite 1)))"
proof (intro conjI allI impI)
  fix atomic_tr :: "vec3 list" and w :: real
  assume "atomic_tr \<noteq> []"
  with assms(5) show "\<exists>r. serial_worker q atomic_tr w = Inr r
                \<and> (\<forall>j<length q. r ! j ! 0 = complex_of_real (w\<^sup>2))"
    by (rule serial_worker_lag0)
next
  assume pos: "0 < sum_list (map (\<lambda>s. s * s) s_inc)"
  have rect: "\<And>a. a \<in> set tr \<Longrightarrow> length a = n" using assms(3) by blast
  have ne: "zip tr s_inc \<noteq> []" using assms(1,2) by (cases tr; cases s_inc) simp_all
  have snd: "map snd (zip tr s_inc) = s_inc" using assms(2) by simp
  from intermediate_vector_set_lag0[OF assms(5) ne rect assms(4)]
  obtain sf where sf: "intermediate_vector_set tr q s_inc = Inr sf"
    and ent: "\<forall>j<length q. sf ! j ! 0 =
                 np_true_divide
                   (Finite (complex_of_real (sum_list (map (\<lambda>s. s * s) s_inc))))
                   (sum_list (map (\<lambda>s. s * s) s_inc))"
    unfolding snd by blast
  from ent pos have "\<forall>j<length q. sf ! j ! 0 = Finite 1" by simp
  with sf show "\<exists>sf. intermediate_vector_set tr q s_inc = Inr sf
                 \<and> (\<forall>j<length q. sf ! j ! 0 = Finite 1)" by blast
qed

theorem lag0_is_squared_weight_witness:
  "[[(0, 0, 0), (1, 0, 0)]] \<noteq> ([] :: vec3 list list)
   \<and> length [2::real] = length [[(0, 0, 0), (1, 0, 0) :: vec3]]
   \<and> (1::nat) \<le> 2 \<and> [(0, 0, 1)] \<noteq> ([] :: vec3 list)
   \<and> (0::real) < sum_list (map (\<lambda>s. s * s) [2])
   \<and> (\<exists>r. serial_worker [(0, 0, 1)] [(0, 0, 0), (1, 0, 0)] 2 = Inr r \<and> r ! 0 ! 0 = 4)
   \<and> (\<exists>sf. intermediate_vector_set [[(0, 0, 0), (1, 0, 0)]] [(0, 0, 1)] [2] = Inr sf
          \<and> sf ! 0 ! 0 = Finite 1)"
proof -
  let ?tr = "[[(0, 0, 0), (1, 0, 0)]] :: vec3 list list"
  let ?q = "[(0, 0, 1)] :: vec3 list"
  let ?s = "[2] :: real list"
  have h1: "?tr \<noteq> []" and h2: "length ?s = length ?tr" and h3: "\<forall>a\<in>set ?tr. length a = 2"
    and h4: "(1::nat) \<le> 2" and h5: "?q \<noteq> []" and h6: "(0::real) < sum_list (map (\<lambda>s. s * s) ?s)"
    and h7: "[(0, 0, 0), (1, 0, 0)] \<noteq> ([] :: vec3 list)"
    by simp_all
  note inst = lag0_is_squared_weight[OF h1 h2 h3 h4 h5]
  from inst h7 obtain r where r: "serial_worker ?q [(0, 0, 0), (1, 0, 0)] 2 = Inr r"
      "\<forall>j<length ?q. r ! j ! 0 = complex_of_real (2\<^sup>2)"
    by blast
  from r(2) have "r ! 0 ! 0 = 4" by simp
  with r(1) have a: "\<exists>r. serial_worker ?q [(0, 0, 0), (1, 0, 0)] 2 = Inr r \<and> r ! 0 ! 0 = 4"
    by blast
  from inst h6 obtain sf where sf: "intermediate_vector_set ?tr ?q ?s = Inr sf"
      "\<forall>j<length ?q. sf ! j ! 0 = Finite 1"
    by blast
  from sf(2) have "sf ! 0 ! 0 = Finite 1" by simp
  with sf(1) have b: "\<exists>sf. intermediate_vector_set ?tr ?q ?s = Inr sf \<and> sf ! 0 ! 0 = Finite 1"
    by blast
  from h1 h2 h4 h5 h6 a b show ?thesis by (intro conjI)
qed

lemma sin_one_pos: "0 < sin (1::real)"
proof -
  have "(1::real) < pi" using pi_ge_two by simp
  then show ?thesis by (intro sin_gt_zero) simp_all
qed

lemma amplitude_cis: "spec_amplitude qv r = cis (- dot3 qv r)"
  by (simp add: spec_amplitude_def cis_conv_exp)

lemma serial_worker_complex_example:
  "serial_worker [(1, 0, 0)] [(0, 0, 0), (1, 0, 0)] 1 = Inr [[1, cis (- 1)]]"
proof -
  have "[0..<3] = [0, 1, 2::nat]" by code_simp
  then have "spec_correlate [(1, 0, 0)] [(0, 0, 0), (1, 0, 0)] 1 = [[1, cis (- 1)]]"
    by (simp add: spec_correlate_def spec_autocorrelation_def amplitude_cis Let_def cis_cnj cis_mult)
  then show ?thesis by (simp add: serial_worker_correlate)
qed

text \<open>
  C3 as stated fails. One atom moving from the origin to (1, 0, 0), wavevector (1, 0, 0),
  weight 1: the entry at lag 1 is \<open>exp(-i)\<close>, of imaginary part \<open>- sin 1 < 0\<close>, in the
  per-atom result and in the result of \<open>intermediate_vector_set\<close>.
\<close>

theorem serial_worker_not_real:
  "serial_worker [(1, 0, 0)] [(0, 0, 0), (1, 0, 0)] 1 = Inr [[1, cis (- 1)]]
   \<and> Im (cis (- 1)) < 0
   \<and> intermediate_vector_set [[(0, 0, 0), (1, 0, 0)]] [(1, 0, 0)] [1] = Inr [[Finite 1, Finite (cis (- 1))]]"
proof (intro conjI)
  show "serial_worker [(1, 0, 0)] [(0, 0, 0), (1, 0, 0)] 1 = Inr [[1, cis (- 1)]]"
    by (rule serial_worker_complex_example)
  show "Im (cis (- 1)) < 0" using sin_one_pos by simp
  show "intermediate_vector_set [[(0, 0, 0), (1, 0, 0)]] [(1, 0, 0)] [1] = Inr [[Finite 1, Finite (cis (- 1))]]"
    by (simp add: intermediate_vector_set_def serial_worker_complex_example)
qed

text \<open>
  C3, amended. The per-atom result and the result of \<open>intermediate_vector_set\<close> are
  complex arrays. Their entries at lag 0 have zero imaginary part (for the ensemble, when
  the sum of the squared weights is positive); the entries at positive lags need not.
\<close>

theorem lag0_is_real:
  assumes "tr \<noteq> []" and "length s_inc = length tr"
    and "\<forall>a\<in>set tr. length a = n" and "1 \<le> n" and "q \<noteq> []"
  shows "(\<forall>atomic_tr w. atomic_tr \<noteq> [] \<longrightarrow>
            (\<exists>r. serial_worker q atomic_tr w = Inr r \<and> (\<forall>j<length q. Im (r ! j ! 0) = 0)))
       \<and> (0 < sum_list (map (\<lambda>s. s * s) s_inc) \<longrightarrow>
            (\<exists>sf. intermediate_vector_set tr q s_inc = Inr sf
                 \<and> (\<forall>j<length q. \<exists>z. sf ! j ! 0 = Finite z \<and> Im z = 0)))"
proof (intro conjI allI impI)
  fix atomic_tr :: "vec3 list" and w :: real
  assume "atomic_tr \<noteq> []"
  from serial_worker_lag0[OF assms(5) this, of w]
  obtain r where "serial_worker q atomic_tr w = Inr r"
    and "\<forall>j<length q. r ! j ! 0 = complex_of_real (w\<^sup>2)" by blast
  then show "\<exists>r. serial_worker q atomic_tr w = Inr r \<and> (\<forall>j<length q. Im (r ! j ! 0) = 0)"
    by simp
next
  assume pos: "0 < sum_list (map (\<lambda>s. s * s) s_inc)"
  let ?d = "sum_list (map (\<lambda>s. s * s) s_inc)"
  have rect: "\<And>a. a \<in> set tr \<Longrightarrow> length a = n" using assms(3) by blast
  have ne: "zip tr s_inc \<noteq> []" using assms(1,2) by (cases tr; cases s_inc) simp_all
  from intermediate_vector_set_lag0[OF assms(5) ne rect assms(4)]
  obtain sf where sf: "intermediate_vector_set tr q s_inc = Inr sf"
    and ent: "\<forall>j<length q. sf ! j ! 0 =
                 np_true_divide
                   (Finite (complex_of_real (sum_list (map (\<lambda>s. s * s) (map snd (zip tr s_inc))))))
                   ?d"
    by blast
  have "\<forall>j<length q. \<exists>z. sf ! j ! 0 = Finite z \<and> Im z = 0"
  proof (intro allI impI)
    fix j assume "j < length q"
    with ent pos have "sf ! j ! 0 =
        Finite (complex_of_real (sum_list (map (\<lambda>s. s * s) (map snd (zip tr s_inc)))) / complex_of_real ?d)"
      by simp
    moreover have "Im (complex_of_real (sum_list (map (\<lambda>s. s * s) (map snd (zip tr s_inc)))) / complex_of_real ?d) = 0"
      by (simp add: complex_is_Real_iff[symmetric])
    ultimately show "\<exists>z. sf ! j ! 0 = Finite z \<and> Im z = 0" by blast
  qed
  with sf show "\<exists>sf. intermediate_vector_set tr q s_inc = Inr sf
                 \<and> (\<forall>j<length q. \<exists>z. sf ! j ! 0 = Finite z \<and> Im z = 0)" by blast
qed

theorem lag0_is_real_witness:
  "[[(0, 0, 0), (1, 0, 0)]] \<noteq> ([] :: vec3 list list)
   \<and> length [1::real] = length [[(0, 0, 0), (1, 0, 0) :: vec3]]
   \<and> (1::nat) \<le> 2 \<and> [(1, 0, 0)] \<noteq> ([] :: vec3 list)
   \<and> (0::real) < sum_list (map (\<lambda>s. s * s) [1])
   \<and> (\<exists>r. serial_worker [(1, 0, 0)] [(0, 0, 0), (1, 0, 0)] 1 = Inr r \<and> Im (r ! 0 ! 0) = 0)
   \<and> (\<exists>sf z. intermediate_vector_set [[(0, 0, 0), (1, 0, 0)]] [(1, 0, 0)] [1] = Inr sf
          \<and> sf ! 0 ! 0 = Finite z \<and> Im z = 0)"
proof -
  let ?tr = "[[(0, 0, 0), (1, 0, 0)]] :: vec3 list list"
  let ?q = "[(1, 0, 0)] :: vec3 list"
  let ?s = "[1] :: real list"
  have h1: "?tr \<noteq> []" and h2: "length ?s = length ?tr" and h3: "\<forall>a\<in>set ?tr. length a = 2"
    and h4: "(1::nat) \<le> 2" and h5: "?q \<noteq> []" and h6: "(0::real) < sum_list (map (\<lambda>s. s * s) ?s)"
    and h7: "[(0, 0, 0), (1, 0, 0)] \<noteq> ([] :: vec3 list)"
    by simp_all
  note inst = lag0_is_real[OF h1 h2 h3 h4 h5]
  from inst h7 obtain r where r: "serial_worker ?q [(0, 0, 0), (1, 0, 0)] 1 = Inr r"
      "\<forall>j<length ?q. Im (r ! j ! 0) = 0"
    by blast
  from r(2) have "Im (r ! 0 ! 0) = 0" by simp
  with r(1) have a: "\<exists>r. serial_worker ?q [(0, 0, 0), (1, 0, 0)] 1 = Inr r \<and> Im (r ! 0 ! 0) = 0"
    by blast
  from inst h6 obtain sf where sf: "intermediate_vector_set ?tr ?q ?s = Inr sf"
      "\<forall>j<length ?q. \<exists>z. sf ! j ! 0 = Finite z \<and> Im z = 0"
    by blast
  from sf(2) have "\<exists>z. sf ! 0 ! 0 = Finite z \<and> Im z = 0" by simp
  with sf(1) have b: "\<exists>sf z. intermediate_vector_set ?tr ?q ?s = Inr sf
          \<and> sf ! 0 ! 0 = Finite z \<and> Im z = 0"
    by blast
  from h1 h2 h4 h5 h6 a b show ?thesis by (intro conjI)
qed

lemma intermediate_vector_set_no_atom: "intermediate_vector_set [] q s_inc = Inl TypeError"
  by (simp add: intermediate_vector_set_def)

lemma intermediate_vector_set_no_weight: "intermediate_vector_set tr q [] = Inl TypeError"
  by (simp add: intermediate_vector_set_def)

lemma sum_squares_zero:
  "\<forall>w\<in>set ws. w = 0 \<Longrightarrow> sum_list (map (\<lambda>s. s * s) ws) = (0::real)"
  by (induction ws) simp_all

text \<open>
  C5 as stated fails. With one atom of weight 0 the call raises nothing: it returns the
  array whose entry is the non-finite value of the division 0 / 0.
\<close>

theorem zero_weights_return_nan:
  "intermediate_vector_set [[(0, 0, 0)]] [(0, 0, 0)] [0] = Inr [[NanInf]]"
proof -
  have "serial_worker [(0, 0, 0)] [(0, 0, 0)] 0 = Inr [[0]]"
    by (simp add: serial_worker_correlate spec_correlate_def spec_autocorrelation_def Let_def)
  then show ?thesis by (simp add: intermediate_vector_set_def)
qed

text \<open>
  C5, amended. When every weight is zero (at least one atom, one weight per atom,
  \<open>n \<ge> 1\<close> frames, at least one wavevector), \<open>intermediate_vector_set\<close> raises no error:
  it returns the array of shape (#wavevectors, #frames) whose every entry is non-finite.
\<close>

theorem zero_weights_all_nan:
  assumes "tr \<noteq> []" and "length s_inc = length tr"
    and "\<forall>a\<in>set tr. length a = n" and "1 \<le> n" and "q \<noteq> []"
    and "\<forall>w\<in>set s_inc. w = 0"
  shows "intermediate_vector_set tr q s_inc = Inr (replicate (length q) (replicate n NanInf))"
proof -
  have rect: "\<And>a. a \<in> set tr \<Longrightarrow> length a = n" using assms(3) by blast
  have ne: "zip tr s_inc \<noteq> []" using assms(1,2) by (cases tr; cases s_inc) simp_all
  have d: "sum_list (map (\<lambda>s. s * s) s_inc) = 0"
    using assms(6) by (rule sum_squares_zero)
  from intermediate_vector_set_entries[OF assms(5) ne rect assms(4)]
  obtain sf where sf: "intermediate_vector_set tr q s_inc = Inr sf" "has_shape (length q) n sf"
    and ent: "\<forall>j<length q. \<forall>k<n. sf ! j ! k =
                 np_true_divide
                   (Finite (sum_list (map (\<lambda>(a, w). spec_correlate q a w ! j ! k) (zip tr s_inc))))
                   (sum_list (map (\<lambda>s. s * s) s_inc))"
    by blast
  have "has_shape (length q) n (replicate (length q) (replicate n (NanInf :: complex npval)))"
    by (simp add: has_shape_def list_all_iff)
  with sf(2) have "sf = replicate (length q) (replicate n NanInf)"
  proof (rule has_shape_eqI)
    fix j k assume "j < length q" and "k < n"
    with ent show "sf ! j ! k = replicate (length q) (replicate n NanInf) ! j ! k"
      by (simp add: d)
  qed
  with sf(1) show ?thesis by simp
qed

theorem zero_weights_all_nan_witness:
  "[[(0, 0, 0), (1, 0, 0)], [(2, 0, 0), (2, 1, 0)]] \<noteq> ([] :: vec3 list list)
   \<and> length [0::real, 0] = length [[(0, 0, 0), (1, 0, 0)], [(2, 0, 0), (2, 1, 0) :: vec3]]
   \<and> (1::nat) \<le> 2 \<and> [(1, 0, 0)] \<noteq> ([] :: vec3 list)
   \<and> intermediate_vector_set [[(0, 0, 0), (1, 0, 0)], [(2, 0, 0), (2, 1, 0)]] [(1, 0, 0)] [0, 0]
       = Inr [[NanInf, NanInf]]"
proof -
  let ?tr = "[[(0, 0, 0), (1, 0, 0)], [(2, 0, 0), (2, 1, 0)]] :: vec3 list list"
  let ?q = "[(1, 0, 0)] :: vec3 list"
  let ?s = "[0, 0] :: real list"
  have h1: "?tr \<noteq> []" and h2: "length ?s = length ?tr" and h3: "\<forall>a\<in>set ?tr. length a = 2"
    and h4: "(1::nat) \<le> 2" and h5: "?q \<noteq> []" and h6: "\<forall>w\<in>set ?s. w = 0"
    by simp_all
  have "replicate (length ?q) (replicate 2 (NanInf :: complex npval)) = [[NanInf, NanInf]]"
    by (simp add: numeral_2_eq_2)
  with zero_weights_all_nan[OF h1 h2 h3 h4 h5 h6]
  have "intermediate_vector_set ?tr ?q ?s = Inr [[NanInf, NanInf]]" by (simp only:)
  with h1 h2 h4 h5 show ?thesis by (intro conjI)
qed

lemma serial_worker_unit_example: "serial_worker [(0, 0, 0)] [(0, 0, 0)] 1 = Inr [[1]]"
  by (simp add: serial_worker_correlate spec_correlate_def spec_autocorrelation_def spec_amplitude_def Let_def)

text \<open>
  C6 as stated fails. One atom and two weights: no error, the atom is paired with the
  first weight and the sum is divided by the squares of both weights.
\<close>

theorem surplus_weight_no_error:
  "intermediate_vector_set [[(0, 0, 0)]] [(0, 0, 0)] [1, 1] = Inr [[Finite (1 / 2)]]"
  by (simp add: intermediate_vector_set_def serial_worker_unit_example)

text \<open>
  C6, amended. When the number of weights differs from the number of atoms (both at
  least one), \<open>intermediate_vector_set\<close> raises no error: atoms and weights are paired up
  to the shorter of the two, the per-atom results of these pairs are summed, and the sum
  is divided by the sum of the squares of all the weights. With no atom, or with no
  weight, the reduction over no result raises TypeError.
\<close>

theorem mismatched_weights_truncate:
  assumes "tr \<noteq> []" and "s_inc \<noteq> []"
    and "\<forall>a\<in>set tr. length a = n" and "1 \<le> n" and "q \<noteq> []"
  shows "(\<exists>per_atom sf.
           length per_atom = min (length tr) (length s_inc)
         \<and> (\<forall>i<min (length tr) (length s_inc).
                serial_worker q (tr ! i) (s_inc ! i) = Inr (per_atom ! i))
         \<and> intermediate_vector_set tr q s_inc = Inr sf
         \<and> length sf = length q
         \<and> (\<forall>j<length q. length (sf ! j) = n
               \<and> (\<forall>k<n. sf ! j ! k =
                     np_true_divide
                       (Finite (\<Sum>i<min (length tr) (length s_inc). per_atom ! i ! j ! k))
                       (\<Sum>i<length s_inc. (s_inc ! i)\<^sup>2))))
       \<and> intermediate_vector_set [] q s_inc = Inl TypeError
       \<and> intermediate_vector_set tr q [] = Inl TypeError"
  using intermediate_vector_set_paired[OF assms]
    intermediate_vector_set_no_atom[of q s_inc] intermediate_vector_set_no_weight[of tr q]
  by (intro conjI)

theorem mismatched_weights_truncate_witness:
  "[[(0, 0, 0)]] \<noteq> ([] :: vec3 list list) \<and> [1, 1] \<noteq> ([] :: real list)
   \<and> (1::nat) \<le> 1 \<and> [(0, 0, 0)] \<noteq> ([] :: vec3 list)
   \<and> length [1::real, 1] \<noteq> length [[(0, 0, 0) :: vec3]]
   \<and> (\<exists>sf. intermediate_vector_set [[(0, 0, 0)]] [(0, 0, 0)] [1, 1] = Inr sf
          \<and> length sf = 1 \<and> length (sf ! 0) = 1 \<and> sf ! 0 ! 0 = Finite (1 / 2))
   \<and> intermediate_vector_set [] [(0, 0, 0)] [1, 1] = Inl TypeError
   \<and> intermediate_vector_set [[(0, 0, 0)]] [(0, 0, 0)] [] = Inl TypeError"
proof -
  let ?tr = "[[(0, 0, 0)]] :: vec3 list list"
  let ?q = "[(0, 0, 0)] :: vec3 list"
  let ?s = "[1, 1] :: real list"
  have h1: "?tr \<noteq> []" and h2: "?s \<noteq> []" and h3: "\<forall>a\<in>set ?tr. length a = 1"
    and h4: "(1::nat) \<le> 1" and h5: "?q \<noteq> []" and h6: "length ?s \<noteq> length ?tr"
    by simp_all
  note inst = mismatched_weights_truncate[OF h1 h2 h3 h4 h5]
  from inst have e1: "intermediate_vector_set [] ?q ?s = Inl TypeError" by (elim conjE)
  from inst have e2: "intermediate_vector_set ?tr ?q [] = Inl TypeError" by (elim conjE)
  from inst obtain per_atom sf where
    w: "\<forall>i<min (length ?tr) (length ?s). serial_worker ?q (?tr ! i) (?s ! i) = Inr (per_atom ! i)"
    and sf: "intermediate_vector_set ?tr ?q ?s = Inr sf" "length sf = length ?q"
    and ent: "\<forall>j<length ?q. length (sf ! j) = 1
               \<and> (\<forall>k<1. sf ! j ! k =
                     np_true_divide
                       (Finite (\<Sum>i<min (length ?tr) (length ?s). per_atom ! i ! j ! k))
                       (\<Sum>i<length ?s. (?s ! i)\<^sup>2))"
    by blast
  from w have "serial_worker ?q (?tr ! 0) (?s ! 0) = Inr (per_atom ! 0)" by simp
  then have pa: "per_atom ! 0 = [[1]]" by (simp add: serial_worker_unit_example)
  from ent have e0: "length (sf ! 0) = 1
               \<and> (\<forall>k<1. sf ! 0 ! k =
                     np_true_divide
                       (Finite (\<Sum>i<min (length ?tr) (length ?s). per_atom ! i ! 0 ! k))
                       (\<Sum>i<length ?s. (?s ! i)\<^sup>2))"
    by simp
  then have l0: "length (sf ! 0) = 1" by (rule conjunct1)
  from e0 have "sf ! 0 ! 0 = np_true_divide
                       (Finite (\<Sum>i<min (length ?tr) (length ?s). per_atom ! i ! 0 ! 0))
                       (\<Sum>i<length ?s. (?s ! i)\<^sup>2)" by simp
  then have v0: "sf ! 0 ! 0 = Finite (1 / 2)" by (simp add: pa lessThan_Suc)
  from sf(2) have l: "length sf = 1" by simp
  from sf(1) l l0 v0 have s: "\<exists>sf. intermediate_vector_set ?tr ?q ?s = Inr sf
          \<and> length sf = 1 \<and> length (sf ! 0) = 1 \<and> sf ! 0 ! 0 = Finite (1 / 2)"
    by blast
  from h1 h2 h4 h5 h6 s e1 e2 show ?thesis by (intro conjI)
qed

lemma collect_map_Inl:
  "xs \<noteq> [] \<Longrightarrow> (\<And>x. x \<in> set xs \<Longrightarrow> f x = Inl e) \<Longrightarrow> collect (map f xs) = Inl e"
  by (cases xs) simp_all

lemma intermediate_vector_set_mset:
  assumes ms: "mset ps' = mset ps"
    and rect: "\<And>a w. (a, w) \<in> set ps \<Longrightarrow> length a = n"
  shows "collect (map (\<lambda>(a, w). serial_worker q a w) ps')
         = (if q \<noteq> [] \<and> 1 \<le> n then Inr (map (\<lambda>(a, w). spec_correlate q a w) ps')
            else if ps' = [] then Inr [] else Inl (if q = [] then IndexError else ValueError))
       \<and> collect (map (\<lambda>(a, w). serial_worker q a w) ps)
         = (if q \<noteq> [] \<and> 1 \<le> n then Inr (map (\<lambda>(a, w). spec_correlate q a w) ps)
            else if ps = [] then Inr [] else Inl (if q = [] then IndexError else ValueError))"
proof -
  have set_eq: "set ps' = set ps" using ms by (rule mset_eq_setD)
  have rect': "\<And>a w. (a, w) \<in> set ps' \<Longrightarrow> length a = n" using rect set_eq by blast
  have one: "collect (map (\<lambda>(a, w). serial_worker q a w) xs)
         = (if q \<noteq> [] \<and> 1 \<le> n then Inr (map (\<lambda>(a, w). spec_correlate q a w) xs)
            else if xs = [] then Inr [] else Inl (if q = [] then IndexError else ValueError))"
    if r: "\<And>a w. (a, w) \<in> set xs \<Longrightarrow> length a = n" for xs
  proof (cases "q \<noteq> [] \<and> 1 \<le> n")
    case True
    then have "\<And>a w. (a, w) \<in> set xs \<Longrightarrow> a \<noteq> []" using r by fastforce
    with True show ?thesis by (simp add: workers_collect)
  next
    case False
    show ?thesis
    proof (cases "xs = []")
      case True
      with False show ?thesis by auto
    next
      case ne: False
      have "\<And>x. x \<in> set xs \<Longrightarrow> (case x of (a, w) \<Rightarrow> serial_worker q a w)
                = Inl (if q = [] then IndexError else ValueError)"
      proof -
        fix x assume x: "x \<in> set xs"
        obtain a w where aw: "x = (a, w)" by (cases x)
        show "(case x of (a, w) \<Rightarrow> serial_worker q a w) = Inl (if q = [] then IndexError else ValueError)"
        proof (cases "q = []")
          case True
          then show ?thesis by (simp add: aw serial_worker_no_wavevector)
        next
          case q: False
          with False have "n = 0" by simp
          with r[of a w] x aw have "a = []" by simp
          with q show ?thesis by (simp add: aw serial_worker_no_frame)
        qed
      qed
      with ne have "collect (map (\<lambda>(a, w). serial_worker q a w) xs)
                    = Inl (if q = [] then IndexError else ValueError)"
        by (rule collect_map_Inl)
      with False ne show ?thesis by auto
    qed
  qed
  from one[OF rect'] one[OF rect] show ?thesis by (rule conjI)
qed

text \<open>
  C7. For a trajectory whose atoms have the same number of frames, one weight per atom
  and any wavevectors: permuting the atoms together with their weights (the pairs of atom
  and weight are the same multiset) does not change what \<open>intermediate_vector_set\<close> returns
  or raises. Arithmetic is exact.
\<close>

theorem atom_order_irrelevant:
  assumes "length s_inc = length tr" and "length s_inc' = length tr'"
    and "mset (zip tr' s_inc') = mset (zip tr s_inc)"
    and "\<forall>a\<in>set tr. length a = n"
  shows "intermediate_vector_set tr' q s_inc' = intermediate_vector_set tr q s_inc"
proof -
  let ?ps = "zip tr s_inc" and ?ps' = "zip tr' s_inc'"
  let ?g = "\<lambda>(a, w). spec_correlate q a w"
  have rect: "\<And>a w. (a, w) \<in> set ?ps \<Longrightarrow> length a = n"
    using assms(4) by (auto dest: set_zip_leftD)
  have "mset (map snd ?ps') = mset (map snd ?ps)" by (simp only: mset_map assms(3))
  then have ws: "mset s_inc' = mset s_inc" using assms(1,2) by simp
  have "sum_list (map (\<lambda>s. s * s) s_inc') = sum_mset (image_mset (\<lambda>s. s * s) (mset s_inc'))"
    by (simp flip: sum_mset_sum_list)
  also have "\<dots> = sum_list (map (\<lambda>s. s * s) s_inc)"
    by (simp add: ws flip: sum_mset_sum_list)
  finally have d: "sum_list (map (\<lambda>s. s * s) s_inc') = sum_list (map (\<lambda>s. s * s) s_inc)" .
  have empty: "?ps' = [] \<longleftrightarrow> ?ps = []" using assms(3) by (metis mset_zero_iff)
  note coll = intermediate_vector_set_mset[where n = n and q = q and ps = "zip tr s_inc" and ps' = "zip tr' s_inc'", OF assms(3) rect]
  show ?thesis
  proof (cases "q \<noteq> [] \<and> 1 \<le> n")
    case True
    have sh: "\<And>x. x \<in> set (map ?g ?ps) \<Longrightarrow> has_shape (length q) n x"
      using rect correlate_shape by fastforce
    have "mset (map ?g ?ps') = mset (map ?g ?ps)" by (simp only: mset_map assms(3))
    then have "reduce np_add (map ?g ?ps') = reduce np_add (map ?g ?ps)"
      using sh by (rule reduce_np_add_mset)
    with coll True show ?thesis
      unfolding intermediate_vector_set_def d by simp
  next
    case False
    with coll empty show ?thesis
      unfolding intermediate_vector_set_def d by auto
  qed
qed

theorem atom_order_irrelevant_witness:
  "length [1::real, 2] = length [[(0, 0, 0), (1, 0, 0)], [(2, 0, 0), (2, 1, 0) :: vec3]]
   \<and> length [2::real, 1] = length [[(2, 0, 0), (2, 1, 0)], [(0, 0, 0), (1, 0, 0) :: vec3]]
   \<and> intermediate_vector_set [[(2, 0, 0), (2, 1, 0)], [(0, 0, 0), (1, 0, 0)]] [(1, 0, 0)] [2, 1]
       = intermediate_vector_set [[(0, 0, 0), (1, 0, 0)], [(2, 0, 0), (2, 1, 0)]] [(1, 0, 0)] [1, 2]"
proof -
  let ?a = "[(0, 0, 0), (1, 0, 0)] :: vec3 list"
  let ?b = "[(2, 0, 0), (2, 1, 0)] :: vec3 list"
  have h1: "length [1::real, 2] = length [?a, ?b]" and h2: "length [2::real, 1] = length [?b, ?a]"
    and h4: "\<forall>a\<in>set [?a, ?b]. length a = 2"
    by simp_all
  have h3: "mset (zip [?b, ?a] [2::real, 1]) = mset (zip [?a, ?b] [1, 2])"
    by (simp add: add_mset_commute)
  from atom_order_irrelevant[OF h1 h2 h3 h4, of "[(1, 0, 0)]"] h1 h2
  show ?thesis by (intro conjI)
qed

lemma np_true_divide_one: "np_true_divide v 1 = v"
  by (cases v) simp_all

lemma np_average_axis0_single: "np_average_axis0 [row] = row"
  by (simp add: np_average_axis0_def np_true_divide_one map_nth)

lemma length_np_average_axis0: "sf \<noteq> [] \<Longrightarrow> length (np_average_axis0 sf) = length (sf ! 0)"
  by (cases sf) (simp_all add: np_average_axis0_def)

lemma intermediate_vector_set_complex_example:
  "intermediate_vector_set [[(0, 0, 0), (1, 0, 0)]] [(1, 0, 0)] [1] = Inr [[Finite 1, Finite (cis (- 1))]]"
  by (simp add: intermediate_vector_set_def serial_worker_complex_example)

text \<open>
  C8. The default averaging, the unweighted mean over axis 0, returns the single row of an
  array with one row unchanged; so \<open>intermediate\<close> with the default averaging returns that
  row whenever \<open>intermediate_vector_set\<close> returns an array with one row.
\<close>

theorem average_single_wavevector:
  "np_average_axis0 [row] = row
   \<and> (intermediate_vector_set tr q s_inc = Inr [row] \<longrightarrow>
        intermediate tr q s_inc np_average_axis0 = Inr row)"
  by (simp add: intermediate_def np_average_axis0_single)

theorem average_single_wavevector_witness:
  "intermediate_vector_set [[(0, 0, 0), (1, 0, 0)]] [(1, 0, 0)] [1] = Inr [[Finite 1, Finite (cis (- 1))]]
   \<and> intermediate [[(0, 0, 0), (1, 0, 0)]] [(1, 0, 0)] [1] np_average_axis0
       = Inr [Finite 1, Finite (cis (- 1))]"
proof -
  note h = intermediate_vector_set_complex_example
  from average_single_wavevector[of "[Finite 1, Finite (cis (- 1))]"
      "[[(0, 0, 0), (1, 0, 0)]]" "[(1, 0, 0)]" "[1]"] h
  have "intermediate [[(0, 0, 0), (1, 0, 0)]] [(1, 0, 0)] [1] np_average_axis0
       = Inr [Finite 1, Finite (cis (- 1))]" by blast
  with h show ?thesis by (intro conjI)
qed

lemma collect_Inr_nth:
  "(\<And>x. x \<in> set xs \<Longrightarrow> \<exists>y. f x = Inr y) \<Longrightarrow>
     \<exists>ys. collect (map f xs) = Inr ys \<and> length ys = length xs
          \<and> (\<forall>i<length xs. f (xs ! i) = Inr (ys ! i))"
proof (induction xs)
  case Nil
  then show ?case by simp
next
  case (Cons x xs)
  from Cons.prems obtain y where y: "f x = Inr y" by auto
  from Cons.IH Cons.prems obtain ys where ys: "collect (map f xs) = Inr ys"
      "length ys = length xs" "\<forall>i<length xs. f (xs ! i) = Inr (ys ! i)"
    by auto
  have "\<forall>i<length (x # xs). f ((x # xs) ! i) = Inr ((y # ys) ! i)"
    using y ys(3) by (auto simp: nth_Cons split: nat.split)
  with y ys(1,2) show ?case by simp
qed

text \<open>
  C9. For at least one atom, one weight per atom, \<open>n \<ge> 1\<close> frames and a sampling that
  gives every requested magnitude at least one wavevector, \<open>intermediate_spherical\<close> returns
  one row per magnitude, in the order of the magnitudes; row \<open>i\<close> is the real part of the
  averaged series of the \<open>i\<close>-th magnitude and has length \<open>n\<close>.
\<close>

theorem intermediate_spherical_rows:
  assumes "tr \<noteq> []" and "length s_inc = length tr"
    and "\<forall>a\<in>set tr. length a = n" and "1 \<le> n"
    and "\<forall>m\<in>set q_mod. sample m \<noteq> []"
  shows "\<exists>rows. intermediate_spherical sample tr q_mod s_inc = Inr rows
           \<and> length rows = length q_mod
           \<and> (\<forall>i<length q_mod. length (rows ! i) = n
                 \<and> (\<exists>av. intermediate tr (sample (q_mod ! i)) s_inc np_average_axis0 = Inr av
                         \<and> rows ! i = map np_real av))"
proof -
  let ?F = "\<lambda>q_set. case intermediate tr q_set s_inc np_average_axis0 of
                       Inl e \<Rightarrow> Inl e | Inr av \<Rightarrow> Inr (map np_real av)"
  have rect: "\<And>a. a \<in> set tr \<Longrightarrow> length a = n" using assms(3) by blast
  have ne: "zip tr s_inc \<noteq> []" using assms(1,2) by (cases tr; cases s_inc) simp_all
  have av: "\<exists>av. intermediate tr q s_inc np_average_axis0 = Inr av \<and> length av = n"
    if q: "q \<noteq> []" for q
  proof -
    from intermediate_vector_set_entries[OF q ne rect assms(4)]
    obtain sf where sf: "intermediate_vector_set tr q s_inc = Inr sf" "has_shape (length q) n sf"
      by blast
    from sf(2) q have "sf \<noteq> []" by (auto simp: has_shape_def)
    moreover have "length (sf ! 0) = n" using has_shape_nth[OF sf(2), of 0] q by simp
    ultimately have "length (np_average_axis0 sf) = n" by (simp add: length_np_average_axis0)
    with sf(1) show ?thesis by (simp add: intermediate_def)
  qed
  have each: "\<And>q_set. q_set \<in> set (map sample q_mod) \<Longrightarrow> \<exists>y. ?F q_set = Inr y"
  proof -
    fix q_set assume "q_set \<in> set (map sample q_mod)"
    then have "q_set \<noteq> []" using assms(5) by auto
    from av[OF this] obtain a where "intermediate tr q_set s_inc np_average_axis0 = Inr a" by blast
    then show "\<exists>y. ?F q_set = Inr y" by simp
  qed
  from collect_Inr_nth[of "map sample q_mod" ?F, OF each]
  obtain rows where rows: "collect (map ?F (map sample q_mod)) = Inr rows"
      "length rows = length q_mod"
      "\<forall>i<length q_mod. ?F (map sample q_mod ! i) = Inr (rows ! i)"
    by auto
  have "\<forall>i<length q_mod. length (rows ! i) = n
                 \<and> (\<exists>av. intermediate tr (sample (q_mod ! i)) s_inc np_average_axis0 = Inr av
                         \<and> rows ! i = map np_real av)"
  proof (intro allI impI)
    fix i assume i: "i < length q_mod"
    then have "sample (q_mod ! i) \<noteq> []" using assms(5) by simp
    from av[OF this] obtain a where a: "intermediate tr (sample (q_mod ! i)) s_inc np_average_axis0 = Inr a"
        "length a = n" by blast
    from rows(3) i have "?F (sample (q_mod ! i)) = Inr (rows ! i)" by simp
    with a(1) have "rows ! i = map np_real a" by simp
    with a show "length (rows ! i) = n
                 \<and> (\<exists>av. intermediate tr (sample (q_mod ! i)) s_inc np_average_axis0 = Inr av
                         \<and> rows ! i = map np_real av)" by simp
  qed
  with rows(1,2) show ?thesis
    by (simp add: intermediate_spherical_def sphere_average_def Let_def)
qed

lemma serial_worker_at_rest_example:
  "serial_worker [(m, 0, 0)] [(0, 0, 0), (0, 0, 0)] 1 = Inr [[1, 1]]"
proof -
  have "[0..<3] = [0, 1, 2::nat]" by code_simp
  then have "spec_correlate [(m, 0, 0)] [(0, 0, 0), (0, 0, 0)] 1 = [[1, 1]]"
    by (simp add: spec_correlate_def spec_autocorrelation_def spec_amplitude_def Let_def)
  then show ?thesis by (simp add: serial_worker_correlate)
qed

lemma intermediate_at_rest_example:
  "intermediate [[(0, 0, 0), (0, 0, 0)]] [(m, 0, 0)] [1] np_average_axis0 = Inr [Finite 1, Finite 1]"
  by (simp add: intermediate_def intermediate_vector_set_def serial_worker_at_rest_example
      np_average_axis0_single)

theorem intermediate_spherical_rows_witness:
  "[[(0, 0, 0), (0, 0, 0)]] \<noteq> ([] :: vec3 list list)
   \<and> length [1::real] = length [[(0, 0, 0), (0, 0, 0) :: vec3]]
   \<and> (1::nat) \<le> 2
   \<and> (\<exists>rows. intermediate_spherical (\<lambda>m. [(m, 0, 0)]) [[(0, 0, 0), (0, 0, 0)]] [1, 2] [1] = Inr rows
          \<and> length rows = 2
          \<and> rows ! 0 = [Finite 1, Finite 1] \<and> rows ! 1 = [Finite 1, Finite 1])"
proof -
  let ?tr = "[[(0, 0, 0), (0, 0, 0)]] :: vec3 list list"
  let ?sample = "\<lambda>m::real. [(m, 0, 0)] :: vec3 list"
  let ?qm = "[1, 2] :: real list"
  let ?s = "[1] :: real list"
  have h1: "?tr \<noteq> []" and h2: "length ?s = length ?tr" and h3: "\<forall>a\<in>set ?tr. length a = 2"
    and h4: "(1::nat) \<le> 2" and h5: "\<forall>m\<in>set ?qm. ?sample m \<noteq> []"
    by simp_all
  from intermediate_spherical_rows[OF h1 h2 h3 h4 h5]
  obtain rows where rows: "intermediate_spherical ?sample ?tr ?qm ?s = Inr rows"
      "length rows = length ?qm"
    and each: "\<forall>i<length ?qm. length (rows ! i) = 2
                 \<and> (\<exists>av. intermediate ?tr (?sample (?qm ! i)) ?s np_average_axis0 = Inr av
                         \<and> rows ! i = map np_real av)"
    by blast
  from each[rule_format, of 0]
  have "\<exists>av. intermediate ?tr (?sample (?qm ! 0)) ?s np_average_axis0 = Inr av
                         \<and> rows ! 0 = map np_real av" by simp
  then have r0: "rows ! 0 = [Finite 1, Finite 1]"
    by (simp add: intermediate_at_rest_example)
  from each[rule_format, of 1]
  have "\<exists>av. intermediate ?tr (?sample (?qm ! 1)) ?s np_average_axis0 = Inr av
                         \<and> rows ! 1 = map np_real av" by simp
  then have r1: "rows ! 1 = [Finite 1, Finite 1]"
    by (simp add: intermediate_at_rest_example)
  from rows(2) have l: "length rows = 2" by simp
  from rows(1) l r0 r1 have "\<exists>rows. intermediate_spherical ?sample ?tr ?qm ?s = Inr rows
          \<and> length rows = 2
          \<and> rows ! 0 = [Finite 1, Finite 1] \<and> rows ! 1 = [Finite 1, Finite 1]"
    by blast
  with h1 h2 h4 show ?thesis by (intro conjI)
qed

lemma round_half_even_of_int: "round_half_even (real_of_int k) = k"
  by (simp add: round_half_even_def)

lemma b64_round_zero: "b64_round 0 = 0"
  by (simp add: b64_round_def)

lemma b64_round_eval:
  assumes "2 powr real_of_int e \<le> \<bar>x\<bar>" and "\<bar>x\<bar> < 2 powr real_of_int (e + 1)" and "- 1022 \<le> e"
  shows "b64_round x
         = real_of_int (round_half_even (x / 2 powr real_of_int (e - 52))) * 2 powr real_of_int (e - 52)"
proof -
  have pos: "0 < \<bar>x\<bar>" using assms(1) by (smt (verit) powr_gt_zero)
  then have "\<lfloor>log 2 \<bar>x\<bar>\<rfloor> = e"
    using assms(1,2) by (subst floor_log_eq_powr_iff) simp_all
  moreover have "x \<noteq> 0" using pos by auto
  ultimately show ?thesis using assms(3) by (simp add: b64_round_def Let_def max_def)
qed

lemma b64_round_representable:
  assumes "2 powr real_of_int e \<le> \<bar>x\<bar>" and "\<bar>x\<bar> < 2 powr real_of_int (e + 1)" and "- 1022 \<le> e"
    and "x / 2 powr real_of_int (e - 52) = real_of_int k"
  shows "b64_round x = x"
proof -
  have "b64_round x = real_of_int k * 2 powr real_of_int (e - 52)"
    using b64_round_eval[OF assms(1,2,3)] by (simp only: assms(4) round_half_even_of_int)
  also have "\<dots> = x" using assms(4) by (simp add: field_simps)
  finally show ?thesis .
qed

lemma b64_round_one: "b64_round 1 = 1"
  by (rule b64_round_representable[where e = 0 and k = "2 ^ 52"]) (simp_all add: powr_minus)

lemma b64_round_inv49: "b64_round (1 / 49) = 5882252574524729 / 2 ^ 58"
proof -
  have "b64_round (1 / 49)
        = real_of_int (round_half_even ((1 / 49) / 2 powr real_of_int (- 6 - 52))) * 2 powr real_of_int (- 6 - 52)"
    by (rule b64_round_eval) (simp_all add: powr_minus)
  also have "(1 / 49) / 2 powr real_of_int (- 6 - 52) = 288230376151711744 / (49::real)"
    by (simp add: powr_minus)
  also have "round_half_even (288230376151711744 / (49::real)) = 5882252574524729"
    by (simp add: round_half_even_def Let_def)
  finally show ?thesis by (simp add: powr_minus)
qed

lemma b64_round_inv49_fixed:
  "b64_round (5882252574524729 / 2 ^ 58) = 5882252574524729 / 2 ^ 58"
  by (rule b64_round_representable[where e = "- 6" and k = 5882252574524729])
     (simp_all add: powr_minus)

lemma b64_round_inv49_times_49:
  "b64_round (5882252574524729 / 2 ^ 58 * 49) = 1 - 1 / 2 ^ 53"
proof -
  let ?x = "5882252574524729 / 2 ^ 58 * (49::real)"
  have "b64_round ?x
        = real_of_int (round_half_even (?x / 2 powr real_of_int (- 1 - 52))) * 2 powr real_of_int (- 1 - 52)"
    by (rule b64_round_eval) (simp_all add: powr_minus)
  also have "?x / 2 powr real_of_int (- 1 - 52) = 288230376151711721 / (32::real)"
    by (simp add: powr_minus)
  also have "round_half_even (288230376151711721 / (32::real)) = 9007199254740991"
    by (simp add: round_half_even_def Let_def)
  finally show ?thesis by (simp add: powr_minus)
qed

lemma b64_round_of_nat:
  assumes "m < 2 ^ 53"
  shows "b64_round (real m) = real m"
proof (cases "m = 0")
  case True
  then show ?thesis by (simp add: b64_round_zero)
next
  case False
  define e where "e = \<lfloor>log 2 (real m)\<rfloor>"
  have m: "1 \<le> real m" using False by simp
  have lo: "2 powr real_of_int e \<le> real m" and hi: "real m < 2 powr real_of_int (e + 1)"
    using floor_log_eq_powr_iff[of "real m" 2 e] m by (simp_all add: e_def)
  have e0: "0 \<le> e" using m by (simp add: e_def)
  have "log 2 (real m) < 53"
  proof -
    have "real m < 2 ^ 53" using assms by (metis of_nat_less_iff of_nat_numeral of_nat_power)
    then have "real m < 2 powr 53" by simp
    then show ?thesis using m by (simp add: log_less_iff)
  qed
  then have e52: "e \<le> 52" by (simp add: e_def floor_le_iff)
  have u: "2 powr real_of_int (e - 52) = 1 / 2 ^ nat (52 - e)"
  proof -
    have "real_of_int (e - 52) = - real (nat (52 - e))" using e52 by simp
    then show ?thesis by (simp only: powr_minus powr_realpow zero_less_numeral inverse_eq_divide)
  qed
  have "real m / 2 powr real_of_int (e - 52) = real_of_int (int m * 2 ^ nat (52 - e))"
    unfolding u by simp
  with lo hi show ?thesis
    using e0 by (intro b64_round_representable[where e = e and k = "int m * 2 ^ nat (52 - e)"]) simp_all
qed

lemma b64_cmul_one_cnj_one: "b64_cmul 1 (cnj 1) = 1"
  by (simp add: b64_cmul_def b64_round_one b64_round_zero complex_eq_iff)

lemma b64_amplitude_at_origin:
  "b64_cexp (b64_cmul (Complex 0 (- 1)) (complex_of_real (b64_dot3 qv (0, 0, 0)))) = 1"
proof -
  obtain a b c where "qv = (a, b, c)" by (cases qv)
  then have "b64_dot3 qv (0, 0, 0) = 0" by (simp add: b64_round_zero)
  then show ?thesis
    by (simp add: b64_cmul_def b64_cexp_def b64_round_zero b64_round_one complex_eq_iff)
qed

lemma b64_cadd_count:
  assumes "Suc m < 2 ^ 53"
  shows "b64_cadd (of_nat m) 1 = of_nat (Suc m)"
proof -
  have "b64_round (real m + 1) = real m + 1"
    using b64_round_of_nat[OF assms] by (simp add: add.commute)
  then show ?thesis by (simp add: b64_cadd_def b64_round_zero complex_eq_iff)
qed

lemma b64_lag0_sum_at_rest:
  assumes "m \<le> n" and "n < 2 ^ 53"
  shows "foldl (\<lambda>acc t.
            if n - 1 \<le> t + (n - 1) \<and> t + (n - 1) - (n - 1) < n
            then b64_cadd acc (b64_cmul (replicate n 1 ! (t + (n - 1) - (n - 1)))
                                        (cnj (replicate n 1 ! t)))
            else acc) 0 [0..<m] = of_nat m"
proof -
  define F :: "complex \<Rightarrow> nat \<Rightarrow> complex" where
    "F = (\<lambda>acc t.
            if n - 1 \<le> t + (n - 1) \<and> t + (n - 1) - (n - 1) < n
            then b64_cadd acc (b64_cmul (replicate n 1 ! (t + (n - 1) - (n - 1)))
                                        (cnj (replicate n 1 ! t)))
            else acc)"
  have step: "F acc t = b64_cadd acc 1" if "t < n" for acc t
  proof -
    have "t + (n - 1) - (n - 1) = t" by simp
    moreover have "n - 1 \<le> t + (n - 1)" by simp
    moreover have "replicate n (1::complex) ! t = 1" using that by simp
    moreover have "b64_cmul 1 (cnj 1) = 1" by (rule b64_cmul_one_cnj_one)
    ultimately show ?thesis using that unfolding F_def by (simp only: if_True simp_thms)
  qed
  have "foldl F 0 [0..<m] = of_nat m" using assms(1)
  proof (induction m)
    case 0
    then show ?case by simp
  next
    case (Suc m)
    then have m: "m < n" and ih: "foldl F 0 [0..<m] = of_nat m" by simp_all
    have lt: "Suc m < 2 ^ 53" using m assms(2) by simp
    have "foldl F 0 [0..<Suc m] = F (foldl F 0 [0..<m]) m" by simp
    also have "\<dots> = b64_cadd (of_nat m) 1" by (simp only: ih step[OF m])
    also have "\<dots> = of_nat (Suc m)" using lt by (rule b64_cadd_count)
    finally show ?case .
  qed
  then show ?thesis unfolding F_def .
qed

lemma length_b64_lag_weights: "length (b64_lag_weights n) = 2 * n - 1"
  unfolding b64_lag_weights_def np_arange_def Let_def by (simp del: upt_Suc)

lemma b64_lag_weights_centre:
  assumes "1 \<le> n"
  shows "b64_lag_weights n ! (n - 1) = b64_round (1 / real n)"
proof -
  let ?w = "[1..<1 + n]"
  have j: "n - 1 < length (?w @ drop 1 (rev ?w))" using assms by (simp del: upt_Suc)
  have "(?w @ drop 1 (rev ?w)) ! (n - 1) = ?w ! (n - 1)"
    using assms by (simp add: nth_append del: upt_Suc)
  also have "\<dots> = n" using assms by (simp del: upt_Suc)
  finally have c: "(?w @ drop 1 (rev ?w)) ! (n - 1) = n" .
  have "b64_lag_weights n ! (n - 1) = b64_round (1 / real ((?w @ drop 1 (rev ?w)) ! (n - 1)))"
    unfolding b64_lag_weights_def np_arange_def Let_def by (rule nth_map[OF j])
  then show ?thesis by (simp only: c)
qed

lemma b64_serial_worker_at_rest:
  assumes "1 \<le> n" and "n < 2 ^ 53"
  shows "\<exists>r. b64_serial_worker [qv] (replicate n (0, 0, 0)) s = Inr [r]
           \<and> r ! 0 = b64_cmul (complex_of_real (b64_round (b64_round (1 / real n) * b64_round (s * s))))
                               (of_nat n)"
proof -
  let ?x = "replicate n (1::complex)"
  define C :: "nat \<Rightarrow> complex" where
    "C = (\<lambda>j. foldl (\<lambda>acc t.
                  if length ?x - 1 \<le> t + j \<and> t + j - (length ?x - 1) < length ?x
                  then b64_cadd acc (b64_cmul (?x ! (t + j - (length ?x - 1))) (cnj (?x ! t)))
                  else acc) 0 [0..<length ?x])"
  define M :: "real \<Rightarrow> complex \<Rightarrow> complex" where
    "M = (\<lambda>u z. b64_cmul (complex_of_real (b64_round (u * b64_round (s * s)))) z)"
  define g where "g = map2 M (b64_lag_weights n) (map C [0..<length ?x + length ?x - 1])"
  have ai: "map (map (\<lambda>x. b64_cexp (b64_cmul (Complex 0 (- 1)) (complex_of_real x))))
              (b64_tensordot [qv] (replicate n (0, 0, 0))) = [?x]"
    by (simp add: b64_tensordot_def b64_amplitude_at_origin)
  have ne: "?x \<noteq> []" using assms(1) by auto
  have corr: "b64_correlate_full ?x ?x = Inr (map C [0..<length ?x + length ?x - 1])"
    using ne unfolding b64_correlate_full_def C_def by (simp only: simp_thms if_False)
  have app: "apply_along_axis
               (\<lambda>x. case b64_correlate_full x x of
                       Inl e \<Rightarrow> Inl e
                     | Inr c \<Rightarrow> Inr (map2 M (b64_lag_weights n) c)) [?x] = Inr [g]"
    by (simp add: apply_along_axis_def corr g_def)
  have len: "length g = 2 * n - 1" using assms(1) by (simp add: g_def length_b64_lag_weights)
  have half: "(2 * n - 1) div 2 = n - 1" using assms(1) by linarith
  have l0: "length ([?x] ! 0) = n" by simp
  have eq: "b64_serial_worker [qv] (replicate n (0, 0, 0)) s = Inr [drop (n - 1) g]"
    unfolding b64_serial_worker_def ai Let_def l0 M_def[symmetric] app
    by (simp only: list.distinct if_False sum.case list.map nth_Cons_0 len half)
  have idx: "n - 1 < 2 * n - 1" using assms(1) by linarith
  have "drop (n - 1) g ! 0 = g ! (n - 1)" using len idx by simp
  also have "\<dots> = M (b64_lag_weights n ! (n - 1)) (C (n - 1))"
    using idx by (simp add: g_def length_b64_lag_weights)
  also have "C (n - 1) = of_nat n"
    unfolding C_def length_replicate using assms(2) by (intro b64_lag0_sum_at_rest) simp_all
  also have "b64_lag_weights n ! (n - 1) = b64_round (1 / real n)"
    using assms(1) by (rule b64_lag_weights_centre)
  finally have "drop (n - 1) g ! 0
      = b64_cmul (complex_of_real (b64_round (b64_round (1 / real n) * b64_round (s * s)))) (of_nat n)"
    unfolding M_def .
  with eq show ?thesis by blast
qed

lemma b64_round_below_one: "b64_round (1 - 1 / 2 ^ 53) = 1 - 1 / 2 ^ 53"
  by (rule b64_round_representable[where e = "- 1" and k = 9007199254740991])
     (simp_all add: powr_minus)

lemma b64_cmul_real_nat:
  "b64_cmul (complex_of_real u) (of_nat m) = complex_of_real (b64_round (b64_round (u * real m)))"
  by (simp add: b64_cmul_def b64_round_zero complex_eq_iff)

text \<open>
  C10 as stated fails in binary64. An atom at rest at the origin over 49 frames, weight 1:
  the lag weight at the centre is \<open>1.0 / 49\<close> rounded, the raw autocorrelation at lag 0 is
  49, and their rounded product is \<open>1 - 1 / 2 ^ 53\<close> (printed 0.9999999999999999), not
  \<open>w\<^sup>2 = 1\<close>.
\<close>

theorem lag0_rounded_below_squared_weight:
  "(case b64_serial_worker [(1, 0, 0)] (replicate 49 (0, 0, 0)) 1 of
      Inl e \<Rightarrow> False
    | Inr r \<Rightarrow> r ! 0 ! 0 = complex_of_real (1 - 1 / 2 ^ 53))
   \<and> complex_of_real (1 - 1 / 2 ^ 53) \<noteq> complex_of_real (1\<^sup>2)"
proof -
  have "(1::nat) \<le> 49" and "(49::nat) < 2 ^ 53" by simp_all
  from b64_serial_worker_at_rest[OF this, of "(1, 0, 0)" 1]
  obtain r where r: "b64_serial_worker [(1, 0, 0)] (replicate 49 (0, 0, 0)) 1 = Inr [r]"
    and r0: "r ! 0 = b64_cmul (complex_of_real (b64_round (b64_round (1 / real 49) * b64_round (1 * 1))))
                              (of_nat 49)"
    by blast
  have a: "b64_round (1 / real 49) = 5882252574524729 / 2 ^ 58"
    using b64_round_inv49 by simp
  have b: "b64_round (1 * 1) = 1" by (simp add: b64_round_one)
  have c: "b64_round (5882252574524729 / 2 ^ 58 * 1) = 5882252574524729 / 2 ^ 58"
    using b64_round_inv49_fixed by simp
  have d: "b64_round (5882252574524729 / 2 ^ 58 * real 49) = 1 - 1 / 2 ^ 53"
    using b64_round_inv49_times_49 by simp
  have "r ! 0 = complex_of_real (1 - 1 / 2 ^ 53)"
    unfolding r0 by (simp only: a b c d b64_cmul_real_nat b64_round_below_one)
  moreover have "complex_of_real (1 - 1 / 2 ^ 53) \<noteq> complex_of_real (1\<^sup>2)" by simp
  ultimately show ?thesis by (simp only: r sum.case nth_Cons_0 simp_thms)
qed

end
